theory Spec2Isabelle
  imports Complex_Main
begin

section \<open>Strings of the host language\<close>

text \<open>
  The program is TypeScript; its strings are sequences of 16-bit code units.  The
  model uses \<^typ>\<open>string\<close> and reads a character as the code unit of the same number, so
  it covers exactly the strings whose code units are below 256 (ASCII and Latin-1).  On
  that domain \<open>trim\<close>, \<open>toLowerCase\<close>, \<open>length\<close> and the classes \<open>\s\<close>, \<open>\d\<close>, \<open>\w\<close> and
  \<open>\b\<close> of regular expressions are the ones defined below.  The bullet U+2022 that two
  regular expressions of the source accept lies outside the domain and is therefore
  absent from the character classes here.
\<close>

definition code :: "char \<Rightarrow> nat" where
  "code c = of_char c"

definition is_ws :: "char \<Rightarrow> bool" where
  "is_ws c = (code c \<in> {9, 10, 11, 12, 13, 32, 160})"

definition is_line_terminator :: "char \<Rightarrow> bool" where
  "is_line_terminator c = (code c \<in> {10, 13})"

definition is_digit :: "char \<Rightarrow> bool" where
  "is_digit c = (48 \<le> code c \<and> code c \<le> 57)"

definition is_word :: "char \<Rightarrow> bool" where
  "is_word c = (let n = code c in
     (48 \<le> n \<and> n \<le> 57) \<or> (65 \<le> n \<and> n \<le> 90) \<or> n = 95 \<or> (97 \<le> n \<and> n \<le> 122))"

definition toLowerCase_char :: "char \<Rightarrow> char" where
  "toLowerCase_char c = (let n = code c in
     if (65 \<le> n \<and> n \<le> 90) \<or> (192 \<le> n \<and> n \<le> 222 \<and> n \<noteq> 215)
     then char_of (n + 32) else c)"

definition toLowerCase :: "string \<Rightarrow> string" where
  "toLowerCase s = map toLowerCase_char s"

definition trim :: "string \<Rightarrow> string" where
  "trim s = rev (dropWhile is_ws (rev (dropWhile is_ws s)))"

fun starts_with :: "string \<Rightarrow> string \<Rightarrow> bool" where
  "starts_with s [] = True"
| "starts_with [] (k # ks) = False"
| "starts_with (c # cs) (k # ks) = (c = k \<and> starts_with cs ks)"

text \<open>\<open>t.includes(k)\<close>: \<open>k\<close> occurs in \<open>t\<close> as a contiguous substring.\<close>

fun str_includes :: "string \<Rightarrow> string \<Rightarrow> bool" where
  "str_includes [] k = (k = [])"
| "str_includes (c # cs) k = (starts_with (c # cs) k \<or> str_includes cs k)"

subsection \<open>Regular-expression fragments\<close>

text \<open>
  \<open>\b\<close> holds between the character before the position (\<open>prev\<close>, absent at the start)
  and the character at the position (absent at the end) when exactly one of the two is a
  word character.
\<close>

definition opt_word :: "char option \<Rightarrow> bool" where
  "opt_word x = (case x of None \<Rightarrow> False | Some c \<Rightarrow> is_word c)"

definition word_boundary :: "char option \<Rightarrow> string \<Rightarrow> bool" where
  "word_boundary prev s =
     (opt_word prev \<noteq> opt_word (case s of [] \<Rightarrow> None | c # _ \<Rightarrow> Some c))"

text \<open>The pattern \<open>\bw\b\<close> for a non-empty literal \<open>w\<close>, tried at one position.\<close>

definition word_at :: "string \<Rightarrow> char option \<Rightarrow> string \<Rightarrow> bool" where
  "word_at w prev s =
     (word_boundary prev s \<and> starts_with s w \<and>
      word_boundary (Some (last w)) (drop (length w) s))"

text \<open>\<open>/\bw\b/.test(s)\<close>: the pattern is tried at every position from the left.\<close>

fun test_word :: "string \<Rightarrow> char option \<Rightarrow> string \<Rightarrow> bool" where
  "test_word w prev [] = word_at w prev []"
| "test_word w prev (c # cs) = (word_at w prev (c # cs) \<or> test_word w (Some c) cs)"

text \<open>\<open>/\b(w1|w2|...)\b/.test(s)\<close>.\<close>

definition test_words :: "string list \<Rightarrow> string \<Rightarrow> bool" where
  "test_words ws s = list_ex (\<lambda>w. test_word w None s) ws"

text \<open>\<open>/^(w1|w2|...)\b/.test(s)\<close>.\<close>

definition test_prefix_words :: "string list \<Rightarrow> string \<Rightarrow> bool" where
  "test_prefix_words ws s =
     list_ex (\<lambda>w. starts_with s w \<and> word_boundary (Some (last w)) (drop (length w) s)) ws"

text \<open>\<open>\s+\<close> at the head of \<open>s\<close>; the result is what follows the match.\<close>

definition ws_plus :: "string \<Rightarrow> string option" where
  "ws_plus s = (case s of [] \<Rightarrow> None
               | c # cs \<Rightarrow> if is_ws c then Some (dropWhile is_ws cs) else None)"

text \<open>A lower-case literal at the head of \<open>s\<close> under the flag \<open>i\<close>.\<close>

definition lit_ci :: "string \<Rightarrow> string \<Rightarrow> string option" where
  "lit_ci w s = (if toLowerCase (take (length w) s) = w then Some (drop (length w) s) else None)"

text \<open>
  \<open>s.split(re)\<close> for a pattern that never matches the empty string.  The matcher \<open>m\<close>
  receives the character before the position (for a lookbehind) and the text from the
  position on, and returns the text after the match.  \<open>acc\<close> holds the current piece,
  reversed.
\<close>

function split_by ::
  "(char option \<Rightarrow> string \<Rightarrow> string option) \<Rightarrow> char option \<Rightarrow> string \<Rightarrow> string \<Rightarrow> string list"
where
  "split_by m prev acc [] = [rev acc]"
| "split_by m prev acc (c # cs) =
     (case m prev (c # cs) of
        None \<Rightarrow> split_by m (Some c) (c # acc) cs
      | Some rest \<Rightarrow>
          if length rest \<le> length cs
          then rev acc #
               split_by m (Some (last (take (Suc (length cs) - length rest) (c # cs)))) [] rest
          else split_by m (Some c) (c # acc) cs)"
  by pat_completeness auto
termination
  by (relation "measure (\<lambda>(m, prev, acc, s). length s)") auto

definition js_split :: "(char option \<Rightarrow> string \<Rightarrow> string option) \<Rightarrow> string \<Rightarrow> string list" where
  "js_split m s = split_by m None [] s"

section \<open>Errors\<close>

text \<open>
  An exception thrown by the program is a value: a \<open>TypeError\<close> of the runtime, or an
  \<open>Error\<close> with its message.  A function that can throw returns a sum, the error on the
  left; \<open>bindE\<close> runs the next step unless an error was thrown.
\<close>

datatype js_error = TypeError | Error string

definition bindE :: "'e + 'a \<Rightarrow> ('a \<Rightarrow> 'e + 'b) \<Rightarrow> 'e + 'b" where
  "bindE x f = (case x of Inl e \<Rightarrow> Inl e | Inr a \<Rightarrow> f a)"

section \<open>Heuristic deriver (AISummary.tsx)\<close>

datatype lane = Frontend | Backend

record DerivedTask =
  dt_id :: string
  dt_title :: string
  dt_lane :: lane
  dt_prio :: nat

definition FE_HINTS :: "string list" where
  "FE_HINTS = [''ui'', ''ux'', ''front'', ''frontend'', ''webxr'', ''ar'', ''three'', ''three.js'',
     ''scene'', ''canvas'', ''2d'', ''3d'', ''mesh'', ''button'', ''panel'', ''drag'', ''vote'',
     ''sticky'', ''note'', ''overlay'', ''render'', ''shader'', ''camera'', ''raycast'']"

definition BE_HINTS :: "string list" where
  "BE_HINTS = [''back'', ''backend'', ''api'', ''storage'', ''auth'', ''stt'', ''asr'', ''whisper'',
     ''gemini'', ''llm'', ''summary'', ''plan'', ''export'', ''persistence'', ''socket'', ''server'',
     ''schema'', ''index'', ''worker'']"

definition P0_HINTS :: "string list" where
  "P0_HINTS = [''p0'', ''blocker'', ''critical'', ''must'', ''urgent'', ''asap'', ''now'', ''immediately'']"

definition P1_HINTS :: "string list" where
  "P1_HINTS = [''p1'', ''important'', ''high'', ''next'', ''soon'']"

definition detectPriority :: "string \<Rightarrow> nat" where
  "detectPriority s = (let t = toLowerCase s in
     if list_ex (str_includes t) P0_HINTS then 0
     else if list_ex (str_includes t) P1_HINTS then 1
     else 2)"

definition detectLane :: "string \<Rightarrow> lane" where
  "detectLane s = (let t = toLowerCase s;
                       fe = list_ex (str_includes t) FE_HINTS;
                       be = list_ex (str_includes t) BE_HINTS in
     if fe \<and> \<not> be then Frontend
     else if be \<and> \<not> fe then Backend
     else if str_includes t ''transcript'' \<or> str_includes t ''summary'' \<or> str_includes t ''plan'' then Backend
     else Frontend)"

text \<open>\<open>text.replace(/\s+/g, " ")\<close>; \<open>in_run\<close> tells that the previous character was white space.\<close>

fun collapse_ws :: "bool \<Rightarrow> string \<Rightarrow> string" where
  "collapse_ws in_run [] = []"
| "collapse_ws in_run (c # cs) =
     (if is_ws c then (if in_run then collapse_ws True cs else CHR '' '' # collapse_ws True cs)
      else c # collapse_ws False cs)"

text \<open>The separator \<open>/(?<=[.!?])\s+/\<close>.\<close>

definition sentence_sep :: "char option \<Rightarrow> string \<Rightarrow> string option" where
  "sentence_sep prev s =
     (if prev = Some CHR ''.'' \<or> prev = Some CHR ''!'' \<or> prev = Some CHR ''?''
      then ws_plus s else None)"

definition splitSentences :: "string \<Rightarrow> string list" where
  "splitSentences text =
     filter (\<lambda>s. s \<noteq> []) (map trim (js_split sentence_sep (collapse_ws False text)))"

text \<open>The separator \<open>/;\s+|, then\s+| then\s+| and then\s+/i\<close>, alternatives in order.\<close>

definition clause_sep :: "char option \<Rightarrow> string \<Rightarrow> string option" where
  "clause_sep prev s =
     (case Option.bind (lit_ci '';'' s) ws_plus of Some r \<Rightarrow> Some r | None \<Rightarrow>
       (case Option.bind (lit_ci '', then'' s) ws_plus of Some r \<Rightarrow> Some r | None \<Rightarrow>
         (case Option.bind (lit_ci '' then'' s) ws_plus of Some r \<Rightarrow> Some r | None \<Rightarrow>
            Option.bind (lit_ci '' and then'' s) ws_plus)))"

text \<open>\<open>s.replace(/^\s*[-*\<bullet>]\s*/, "")\<close>.\<close>

definition strip_bullet :: "string \<Rightarrow> string" where
  "strip_bullet s = (case dropWhile is_ws s of
       [] \<Rightarrow> s
     | c # r \<Rightarrow> if c = CHR ''-'' \<or> c = CHR ''*'' then dropWhile is_ws r else s)"

text \<open>
  \<open>s.replace(/^\d+\)\s*|\d+\.\s*/, "")\<close>: the first alternative is anchored at the start,
  the second is not, so the leftmost run of digits followed by a dot is removed wherever
  it stands.
\<close>

definition digits_then :: "char \<Rightarrow> string \<Rightarrow> string option" where
  "digits_then d s = (case dropWhile is_digit s of
       [] \<Rightarrow> None
     | c # r \<Rightarrow> if takeWhile is_digit s \<noteq> [] \<and> c = d then Some (dropWhile is_ws r) else None)"

fun strip_dotted_number :: "string \<Rightarrow> string" where
  "strip_dotted_number [] = []"
| "strip_dotted_number (c # cs) =
     (case digits_then CHR ''.'' (c # cs) of
        Some r \<Rightarrow> r
      | None \<Rightarrow> c # strip_dotted_number cs)"

definition strip_numbering :: "string \<Rightarrow> string" where
  "strip_numbering s = (case digits_then CHR '')'' s of
       Some r \<Rightarrow> r
     | None \<Rightarrow> strip_dotted_number s)"

text \<open>
  \<open>s.replace(/\s*\(.*?\)\s*$/, "")\<close>: \<open>lazy_close\<close> is \<open>.*?\)\s*$\<close> after the opening
  parenthesis, \<open>paren_tail\<close> the whole pattern at one position; the leftmost position
  that matches cuts the string.
\<close>

fun lazy_close :: "string \<Rightarrow> bool" where
  "lazy_close [] = False"
| "lazy_close (c # cs) =
     ((c = CHR '')'' \<and> list_all is_ws cs) \<or> (\<not> is_line_terminator c \<and> lazy_close cs))"

definition paren_tail :: "string \<Rightarrow> bool" where
  "paren_tail s = (case dropWhile is_ws s of
       [] \<Rightarrow> False
     | c # r \<Rightarrow> c = CHR ''('' \<and> lazy_close r)"

fun strip_trailing_parens :: "string \<Rightarrow> string" where
  "strip_trailing_parens [] = []"
| "strip_trailing_parens (c # cs) =
     (if paren_tail (c # cs) then [] else c # strip_trailing_parens cs)"

definition normalizeTaskLine :: "string \<Rightarrow> string" where
  "normalizeTaskLine s = trim (strip_trailing_parens (strip_numbering (strip_bullet s)))"

definition ACTION_VERBS :: "string list" where
  "ACTION_VERBS = [''add'', ''implement'', ''create'', ''build'', ''fix'', ''wire'', ''connect'',
     ''render'', ''place'', ''capture'', ''summarize'', ''export'', ''apply'', ''clear'', ''detect'',
     ''enable'', ''toggle'', ''support'', ''show'', ''group'', ''prioritize'']"

definition bullet_marked :: "string \<Rightarrow> bool" where
  "bullet_marked s = (case s of
       c # d # _ \<Rightarrow> (c = CHR ''-'' \<or> c = CHR ''*'') \<and> is_ws d
     | _ \<Rightarrow> False)"

definition looksActionable :: "string \<Rightarrow> bool" where
  "looksActionable s = (let t = toLowerCase s in
     test_prefix_words ACTION_VERBS t
     \<or> test_words [''then'', ''next'', ''after'', ''so that''] t
     \<or> bullet_marked s
     \<or> test_words [''task'', ''step''] t)"

definition is_key_char :: "char \<Rightarrow> bool" where
  "is_key_char c = (let n = code c in
     (97 \<le> n \<and> n \<le> 122) \<or> (48 \<le> n \<and> n \<le> 57) \<or> n = 32)"

definition task_key :: "string \<Rightarrow> string" where
  "task_key line = take 80 (filter is_key_char (toLowerCase line))"

definition rawLines :: "string \<Rightarrow> string list" where
  "rawLines text =
     concat (map (\<lambda>s. map normalizeTaskLine (js_split clause_sep s)) (splitSentences text))"

text \<open>
  The second loop of \<open>deriveTasksFromTranscript\<close>; \<open>seen\<close> is the set of keys, \<open>tasks\<close> the
  array being built.  The call \<open>crypto.randomUUID()\<close> is not guarded: where the runtime
  has no such method (\<open>rnd = None\<close>) the call throws a \<open>TypeError\<close>; otherwise \<open>rnd = Some
  uuid\<close> and \<open>uuid n\<close> is the value of the \<open>n\<close>-th call.  The bound \<open>max\<close> is a number of
  the host language, modelled as a real (\<open>NaN\<close> is not represented); it is tested after
  the push.
\<close>

fun collectTasks ::
  "(nat \<Rightarrow> string) option \<Rightarrow> real \<Rightarrow> string list \<Rightarrow> string list \<Rightarrow> DerivedTask list \<Rightarrow>
   js_error + DerivedTask list"
where
  "collectTasks rnd mx [] seen tasks = Inr tasks"
| "collectTasks rnd mx (line # rest) seen tasks =
     (if line = [] \<or> length line < 6 then collectTasks rnd mx rest seen tasks
      else if \<not> looksActionable line then collectTasks rnd mx rest seen tasks
      else if task_key line \<in> set seen then collectTasks rnd mx rest seen tasks
      else
        (case rnd of
           None \<Rightarrow> Inl TypeError
         | Some uuid \<Rightarrow>
             let tasks' = tasks @ [\<lparr>dt_id = uuid (length tasks), dt_title = line,
                                     dt_lane = detectLane line, dt_prio = detectPriority line\<rparr>]
             in if mx \<le> real (length tasks') then Inr tasks'
                else collectTasks rnd mx rest (task_key line # seen) tasks'))"

text \<open>The tasks in the order of discovery, before \<open>tasks.sort\<close>.\<close>

definition discoveredTasks ::
  "(nat \<Rightarrow> string) option \<Rightarrow> string \<Rightarrow> real \<Rightarrow> js_error + DerivedTask list" where
  "discoveredTasks rnd text mx = collectTasks rnd mx (rawLines text) [] []"

text \<open>
  \<open>tasks.sort((a,b) => a.prio - b.prio)\<close> is a stable sort by \<open>prio\<close>; \<^const>\<open>sort_key\<close>
  is insertion sort, which is stable too.
\<close>

definition deriveTasksFromTranscript ::
  "(nat \<Rightarrow> string) option \<Rightarrow> string \<Rightarrow> real \<Rightarrow> js_error + DerivedTask list" where
  "deriveTasksFromTranscript rnd text mx =
     (if trim text = [] then Inr []
      else bindE (discoveredTasks rnd text mx) (\<lambda>tasks. Inr (sort_key dt_prio tasks)))"

section \<open>Plan normalizer (aiOutputs.ts)\<close>

text \<open>
  The normalizer takes a value of type \<open>any\<close>: what \<open>JSON.parse\<close> returned, or an object
  built in memory.  \<open>json\<close> models these values: \<open>undefined\<close>, \<open>null\<close>, booleans,
  numbers, strings, arrays and plain objects (a list of own properties, looked up by
  key).  Numbers are the integers that print in plain decimal; fractions, \<open>NaN\<close> and
  the infinities are not represented.
\<close>

datatype json =
    JUndefined
  | JNull
  | JBool bool
  | JNum int
  | JStr string
  | JArr "json list"
  | JObj "(string \<times> json) list"

text \<open>\<open>v?.k\<close> for the keys the program reads; none of them is an inherited property.\<close>

definition get_prop :: "json \<Rightarrow> string \<Rightarrow> json" where
  "get_prop v k = (case v of
       JObj kvs \<Rightarrow> (case map_of kvs k of Some x \<Rightarrow> x | None \<Rightarrow> JUndefined)
     | _ \<Rightarrow> JUndefined)"

fun truthy :: "json \<Rightarrow> bool" where
  "truthy JUndefined = False"
| "truthy JNull = False"
| "truthy (JBool b) = b"
| "truthy (JNum n) = (n \<noteq> 0)"
| "truthy (JStr s) = (s \<noteq> [])"
| "truthy (JArr xs) = True"
| "truthy (JObj kvs) = True"

definition nullish :: "json \<Rightarrow> bool" where
  "nullish v = (v = JUndefined \<or> v = JNull)"

fun digits_of :: "nat \<Rightarrow> string" where
  "digits_of n =
     (if n < 10 then [char_of (48 + n)] else digits_of (n div 10) @ [char_of (48 + n mod 10)])"

definition show_int :: "int \<Rightarrow> string" where
  "show_int i = (if i < 0 then CHR ''-'' # digits_of (nat (- i)) else digits_of (nat i))"

fun join_with :: "string \<Rightarrow> string list \<Rightarrow> string" where
  "join_with sep [] = []"
| "join_with sep [x] = x"
| "join_with sep (x # y # ys) = x @ sep @ join_with sep (y # ys)"

fun sequenceE :: "('e + 'a) list \<Rightarrow> 'e + 'a list" where
  "sequenceE [] = Inr []"
| "sequenceE (x # xs) =
     (case x of
        Inl e \<Rightarrow> Inl e
      | Inr a \<Rightarrow> (case sequenceE xs of Inl e \<Rightarrow> Inl e | Inr as \<Rightarrow> Inr (a # as)))"

text \<open>
  \<open>String(v)\<close>.  An array prints its elements separated by commas, \<open>null\<close> and
  \<open>undefined\<close> elements as nothing.  A plain object prints as \<open>[object Object]\<close> through
  the inherited \<open>toString\<close>; an own property \<open>toString\<close> of such an object is not
  callable, and then the conversion throws a \<open>TypeError\<close>.
\<close>

fun toStr :: "json \<Rightarrow> js_error + string" where
  "toStr JUndefined = Inr ''undefined''"
| "toStr JNull = Inr ''null''"
| "toStr (JBool b) = Inr (if b then ''true'' else ''false'')"
| "toStr (JNum n) = Inr (show_int n)"
| "toStr (JStr s) = Inr s"
| "toStr (JArr xs) =
     (case sequenceE (map (\<lambda>x. if x = JUndefined \<or> x = JNull then Inr [] else toStr x) xs) of
        Inl e \<Rightarrow> Inl e
      | Inr ss \<Rightarrow> Inr (join_with '','' ss))"
| "toStr (JObj kvs) =
     (if ''toString'' \<in> set (map fst kvs) then Inl TypeError else Inr ''[object Object]'')"

text \<open>\<open>Array.isArray(v) ? v : []\<close>.\<close>

definition toArray :: "json \<Rightarrow> json list" where
  "toArray v = (case v of JArr xs \<Rightarrow> xs | _ \<Rightarrow> [])"

record AITask =
  t_title :: string
  t_priority :: "string option"
  t_owner :: "string option"
  t_eta :: "string option"
  t_lane :: "string option"
  t_id :: "string option"

record AIWorkflowEdge =
  e_from :: string
  e_to :: string
  e_kind :: "string option"

record AIWorkplan =
  wp_tasks :: "AITask list"

record AIOutput =
  summary_md :: string
  workplan :: AIWorkplan
  workflow_edges :: "AIWorkflowEdge list"

text \<open>\<open>String(v ?? "")\<close>.\<close>

definition str_or_empty :: "json \<Rightarrow> js_error + string" where
  "str_or_empty v = (if nullish v then Inr [] else toStr v)"

text \<open>\<open>v ? String(v) : undefined\<close>.\<close>

definition str_if_truthy :: "json \<Rightarrow> js_error + string option" where
  "str_if_truthy v = (if truthy v then bindE (toStr v) (\<lambda>s. Inr (Some s)) else Inr None)"

text \<open>The two callbacks of \<open>map\<close> in \<open>normalizeAIOutput\<close>; fields are evaluated in order.\<close>

definition normTask :: "json \<Rightarrow> js_error + AITask" where
  "normTask t =
     bindE (str_or_empty (get_prop t ''title'')) (\<lambda>title.
     bindE (str_if_truthy (get_prop t ''priority'')) (\<lambda>priority.
     bindE (str_if_truthy (get_prop t ''owner'')) (\<lambda>owner.
     bindE (str_if_truthy (get_prop t ''eta'')) (\<lambda>eta.
     bindE (str_if_truthy (get_prop t ''lane'')) (\<lambda>lane.
     bindE (str_if_truthy (get_prop t ''id'')) (\<lambda>ident.
       Inr \<lparr>t_title = trim title, t_priority = priority, t_owner = owner,
            t_eta = eta, t_lane = lane, t_id = ident\<rparr>))))))"

definition normEdge :: "json \<Rightarrow> js_error + AIWorkflowEdge" where
  "normEdge e =
     bindE (str_or_empty (get_prop e ''from'')) (\<lambda>from.
     bindE (str_or_empty (get_prop e ''to'')) (\<lambda>to.
     bindE (str_if_truthy (get_prop e ''kind'')) (\<lambda>kind.
       Inr \<lparr>e_from = trim from, e_to = trim to, e_kind = kind\<rparr>)))"

definition normalizeAIOutput :: "json \<Rightarrow> js_error + AIOutput" where
  "normalizeAIOutput raw =
     bindE (sequenceE (map normTask (toArray (get_prop (get_prop raw ''workplan'') ''tasks'')))) (\<lambda>ts.
     bindE (sequenceE (map normEdge (toArray (get_prop raw ''workflow_edges'')))) (\<lambda>es.
     bindE (str_or_empty (get_prop raw ''summary_md'')) (\<lambda>summary.
       Inr \<lparr>summary_md = summary,
            workplan = \<lparr>wp_tasks = filter (\<lambda>t. 0 < length (t_title t)) ts\<rparr>,
            workflow_edges = filter (\<lambda>e. 0 < length (e_from e) \<and> 0 < length (e_to e)) es\<rparr>)))"

text \<open>An \<open>AIOutput\<close> as the object that \<open>normalizeAIOutput\<close> built, to be read again.\<close>

definition optJson :: "string option \<Rightarrow> json" where
  "optJson x = (case x of None \<Rightarrow> JUndefined | Some s \<Rightarrow> JStr s)"

definition taskJson :: "AITask \<Rightarrow> json" where
  "taskJson t = JObj [(''title'', JStr (t_title t)), (''priority'', optJson (t_priority t)),
     (''owner'', optJson (t_owner t)), (''eta'', optJson (t_eta t)),
     (''lane'', optJson (t_lane t)), (''id'', optJson (t_id t))]"

definition edgeJson :: "AIWorkflowEdge \<Rightarrow> json" where
  "edgeJson e = JObj [(''from'', JStr (e_from e)), (''to'', JStr (e_to e)),
     (''kind'', optJson (e_kind e))]"

definition outputJson :: "AIOutput \<Rightarrow> json" where
  "outputJson out = JObj [(''summary_md'', JStr (summary_md out)),
     (''workplan'', JObj [(''tasks'', JArr (map taskJson (wp_tasks (workplan out))))]),
     (''workflow_edges'', JArr (map edgeJson (workflow_edges out)))]"

section \<open>Tasks shown from an AI output (AISummary.tsx)\<close>

definition pickLane :: "string \<Rightarrow> lane" where
  "pickLane text = (let t = toLowerCase text in
     if test_words [''frontend'', ''front'', ''ui'', ''ux'', ''three'', ''webxr'', ''ar'', ''2d'',
          ''3d'', ''scene''] t then Frontend
     else if test_words [''backend'', ''back'', ''api'', ''storage'', ''auth'', ''stt'', ''asr'',
          ''llm'', ''summary'', ''plan'', ''export''] t then Backend
     else if str_includes t ''plan'' \<or> str_includes t ''transcript'' \<or> str_includes t ''summary''
          \<or> str_includes t ''export'' then Backend
     else Frontend)"

text \<open>The field \<open>priority?: string | number\<close> of a task handed to the panel.\<close>

datatype priority_field = PrioAbsent | PrioString string | PrioNumber int

record PanelTask =
  g_id :: "string option"
  g_title :: string
  g_priority :: priority_field
  g_lane :: "string option"

text \<open>
  \<open>(typeof p === "string" ? p : String(p ?? "2")).toLowerCase()\<close>, then the two tests
  \<open>/\b(^0$|p0|critical|blocker|must)\b/\<close> and \<open>/\b(^1$|p1|important|high)\b/\<close>; the
  alternative \<open>^0$\<close> matches exactly the text \<open>0\<close>.
\<close>

definition prioTxt :: "priority_field \<Rightarrow> string" where
  "prioTxt p = toLowerCase (case p of
       PrioAbsent \<Rightarrow> ''2''
     | PrioString s \<Rightarrow> s
     | PrioNumber n \<Rightarrow> show_int n)"

definition geminiPrio :: "priority_field \<Rightarrow> nat" where
  "geminiPrio p = (let txt = prioTxt p in
     if txt = ''0'' \<or> test_words [''p0'', ''critical'', ''blocker'', ''must''] txt then 0
     else if txt = ''1'' \<or> test_words [''p1'', ''important'', ''high''] txt then 1
     else 2)"

definition or_empty :: "string option \<Rightarrow> string" where
  "or_empty x = (case x of None \<Rightarrow> [] | Some s \<Rightarrow> s)"

definition geminiLane :: "PanelTask \<Rightarrow> lane" where
  "geminiLane t =
     (if str_includes (toLowerCase (or_empty (g_lane t))) ''back'' then Backend
      else if str_includes (toLowerCase (or_empty (g_lane t))) ''front'' then Frontend
      else pickLane (g_title t))"

text \<open>
  The callback of \<open>tasks.map\<close> in \<open>geminiTasks\<close>.  The id is \<open>t.id || crypto.randomUUID()\<close>:
  the call is made only for a task without an id, it throws where the runtime has no such
  method (\<open>rnd = None\<close>), and otherwise \<open>uuid i\<close> is the identifier drawn for the task at
  index \<open>i\<close>.
\<close>

definition geminiTask ::
  "(nat \<Rightarrow> string) option \<Rightarrow> nat \<times> PanelTask \<Rightarrow> js_error + DerivedTask" where
  "geminiTask rnd it = (case it of (i, t) \<Rightarrow>
     bindE (if or_empty (g_id t) \<noteq> [] then Inr (or_empty (g_id t))
            else (case rnd of None \<Rightarrow> Inl TypeError | Some uuid \<Rightarrow> Inr (uuid i)))
       (\<lambda>ident. Inr \<lparr>dt_id = ident, dt_title = g_title t, dt_lane = geminiLane t,
                       dt_prio = geminiPrio (g_priority t)\<rparr>))"

definition geminiTasks ::
  "(nat \<Rightarrow> string) option \<Rightarrow> PanelTask list \<Rightarrow> js_error + DerivedTask list" where
  "geminiTasks rnd tasks = sequenceE (map (geminiTask rnd) (enumerate 0 tasks))"

section \<open>Board store (db.ts)\<close>

text \<open>
  Numbers of the scene are modelled as reals.  \<open>notes_ls b\<close> and \<open>edges_ls b\<close> are the
  arrays that \<open>readArray\<close> finds under \<open>notes_b\<close> and \<open>edges_b\<close> in \<open>localStorage\<close>;
  \<open>events\<close> is the log of dispatched events (topic and board id), oldest first; \<open>uid_count\<close>
  counts the calls of \<open>uid()\<close>, whose results are \<open>uid 0\<close>, \<open>uid 1\<close>, ... for an arbitrary
  supply \<open>uid\<close>.
\<close>

type_synonym vec3 = "real \<times> real \<times> real"
type_synonym quat = "real \<times> real \<times> real \<times> real"

record Pose =
  position :: vec3
  quaternion :: quat

record NoteDoc =
  n_text :: string
  n_color :: string
  n_pose :: Pose
  n_size :: real
  n_votes :: int
  n_aiGenerated :: "bool option"
  n_fromAI :: "bool option"

record StoredNote = NoteDoc +
  n_id :: string

record EdgeExtra =
  x_aiGenerated :: "bool option"
  x_fromAI :: "bool option"

text \<open>
  What the parameter \<open>kind\<close> of \<open>addEdge\<close> holds at run time: one of the names of
  \<open>EdgeDoc["kind"]\<close>, or the object a caller put in that position.
\<close>

datatype kind_value = KindName string | KindObject EdgeExtra

record StoredEdge =
  se_id :: string
  se_from :: string
  se_to :: string
  se_kind :: kind_value
  se_aiGenerated :: "bool option"
  se_fromAI :: "bool option"

record store =
  notes_ls :: "string \<Rightarrow> StoredNote list"
  edges_ls :: "string \<Rightarrow> StoredEdge list"
  events :: "(string \<times> string) list"
  uid_count :: nat

definition dispatch :: "string \<Rightarrow> string \<Rightarrow> store \<Rightarrow> store" where
  "dispatch topic boardId st = st\<lparr>events := events st @ [(topic, boardId)]\<rparr>"

text \<open>\<open>addNote\<close> returns the generated id and the store after the write and the event.\<close>

definition addNote :: "(nat \<Rightarrow> string) \<Rightarrow> string \<Rightarrow> NoteDoc \<Rightarrow> store \<Rightarrow> string \<times> store" where
  "addNote uid boardId note st =
     (let ident = uid (uid_count st);
          stored = NoteDoc.extend note (StoredNote.fields ident);
          st1 = st\<lparr>uid_count := Suc (uid_count st),
                   notes_ls := (notes_ls st)(boardId := notes_ls st boardId @ [stored])\<rparr>
      in (ident, dispatch ''notes_updated'' boardId st1))"

text \<open>
  \<open>addEdge(boardId, from, to, kind = "follows", extra?)\<close>: the default of \<open>kind\<close> applies
  when the argument is absent; the fields of \<open>extra\<close> are spread into the edge.
\<close>

definition addEdge ::
  "(nat \<Rightarrow> string) \<Rightarrow> string \<Rightarrow> string \<Rightarrow> string \<Rightarrow> kind_value option \<Rightarrow> EdgeExtra option \<Rightarrow>
   store \<Rightarrow> string \<times> store"
where
  "addEdge uid boardId from to kind extra st =
     (let ident = uid (uid_count st);
          edge = \<lparr>se_id = ident, se_from = from, se_to = to,
                  se_kind = (case kind of None \<Rightarrow> KindName ''follows'' | Some k \<Rightarrow> k),
                  se_aiGenerated = (case extra of None \<Rightarrow> None | Some x \<Rightarrow> x_aiGenerated x),
                  se_fromAI = (case extra of None \<Rightarrow> None | Some x \<Rightarrow> x_fromAI x)\<rparr>;
          st1 = st\<lparr>uid_count := Suc (uid_count st),
                   edges_ls := (edges_ls st)(boardId := edges_ls st boardId @ [edge])\<rparr>
      in (ident, dispatch ''edges_updated'' boardId st1))"

section \<open>Wall applier (planApply.ts)\<close>

record PlanTask =
  pt_id :: "string option"
  pt_title :: string
  pt_description :: "string option"
  pt_owner :: "string option"
  pt_eta :: "string option"
  pt_priority :: "string option"
  pt_lane :: "string option"

record PlanEdge =
  pe_from :: string
  pe_to :: string
  pe_kind :: "string option"

record PlanWorkplan =
  pw_tasks :: "PlanTask list option"
  pw_lanes :: "string list option"

record Plan =
  p_summary_md :: string
  p_workplan :: "PlanWorkplan option"
  p_workflow_edges :: "PlanEdge list option"

record ApplyOpts =
  o_spacingX :: "real option"
  o_spacingY :: "real option"
  o_noteSize :: "real option"
  o_startX :: "real option"
  o_startY :: "real option"
  o_colorByLane :: "(string \<rightharpoonup> string) option"
  o_maxPerLane :: "real option"

text \<open>
  The board object of the scene, by the position and orientation that
  \<open>matrixWorld.decompose\<close> yields; the scene object \<open>xr\<close> carries \<open>boardMesh\<close> and
  \<open>boardAnchor\<close>, either of which may be missing.  The parameter \<open>xr\<close> has type \<open>any\<close>;
  when it is \<open>null\<close> or \<open>undefined\<close> (\<open>None\<close> below) reading \<open>xr.boardMesh\<close> throws a
  \<open>TypeError\<close>.
\<close>

record Board =
  b_position :: vec3
  b_quaternion :: quat

record XR =
  boardMesh :: "Board option"
  boardAnchor :: "Board option"

text \<open>Truthiness of an optional string, and \<open>a || b\<close> on two of them.\<close>

definition truthy_str :: "string option \<Rightarrow> bool" where
  "truthy_str x = (case x of None \<Rightarrow> False | Some s \<Rightarrow> s \<noteq> [])"

definition or_str :: "string option \<Rightarrow> string option \<Rightarrow> string option" where
  "or_str a b = (if truthy_str a then a else b)"

text \<open>\<open>opts?.field ?? default\<close>.\<close>

definition opt_num :: "ApplyOpts option \<Rightarrow> (ApplyOpts \<Rightarrow> real option) \<Rightarrow> real \<Rightarrow> real" where
  "opt_num opts field dflt = (case opts of
       None \<Rightarrow> dflt
     | Some os \<Rightarrow> (case field os of None \<Rightarrow> dflt | Some v \<Rightarrow> v))"

definition palette :: "string list" where
  "palette = [''#FFD966'', ''#A7F3D0'', ''#93C5FD'', ''#FCA5A5'', ''#FBCFE8'', ''#FDE68A'',
     ''#C7D2FE'', ''#D1FAE5'']"

text \<open>
  String literals of the source beyond Latin-1 stand here as their UTF-8 bytes: the
  card-index glyph U+1F5C2 of a lane header, and the dash U+2014 before an owner.  The
  applier only concatenates them.
\<close>

definition HEADER_GLYPH :: string where
  "HEADER_GLYPH = [CHR 0xF0, CHR 0x9F, CHR 0x97, CHR 0x82]"

definition EM_DASH :: string where
  "EM_DASH = [CHR 0xE2, CHR 0x80, CHR 0x94]"

definition plan_lanes :: "PlanWorkplan \<Rightarrow> string list" where
  "plan_lanes wp = (case pw_lanes wp of
       None \<Rightarrow> [''Tasks'']
     | Some ls \<Rightarrow> if ls \<noteq> [] then ls else [''Tasks''])"

text \<open>
  \<open>lanes.forEach((lane, i) => { if (!colorByLane[lane]) colorByLane[lane] = palette[i % 8] })\<close>.
  Lane names are taken not to be names of members of \<open>Object.prototype\<close>.
\<close>

definition assign_colors :: "(string \<rightharpoonup> string) \<Rightarrow> string list \<Rightarrow> (string \<rightharpoonup> string)" where
  "assign_colors given lanes =
     fold (\<lambda>(i, lane) m. if truthy_str (m lane) then m
                          else m(lane \<mapsto> palette ! (i mod length palette)))
          (enumerate 0 lanes) given"

text \<open>
  The table \<open>byLane\<close>: every lane starts empty, then each task goes to its own lane when
  that names a known lane and to the first lane otherwise, unless the lane is full.  The
  table is read at lane names only.
\<close>

definition task_lane :: "string list \<Rightarrow> PlanTask \<Rightarrow> string" where
  "task_lane lanes t =
     (if truthy_str (pt_lane t) \<and> or_empty (pt_lane t) \<in> set lanes
      then or_empty (pt_lane t) else lanes ! 0)"

definition build_byLane :: "string list \<Rightarrow> real \<Rightarrow> PlanTask list \<Rightarrow> (string \<Rightarrow> PlanTask list)" where
  "build_byLane lanes cap ts =
     fold (\<lambda>t m. let lane = task_lane lanes t in
                  if real (length (m lane)) < cap then m(lane := m lane @ [t]) else m)
          ts (\<lambda>l. [])"

definition summarizeTaskTitle ::
  "string \<Rightarrow> string option \<Rightarrow> string option \<Rightarrow> string option \<Rightarrow> string" where
  "summarizeTaskTitle title priority owner eta =
     (let own = (if truthy_str owner then '' '' @ EM_DASH @ '' '' @ or_empty owner else []);
          when = (if truthy_str eta then '' ('' @ or_empty eta @ '')'' else [])
      in ''['' @ (case priority of None \<Rightarrow> ''P1'' | Some p \<Rightarrow> p) @ ''] '' @
         (if title \<noteq> [] then title else ''Task'') @ own @ when)"

definition normalizeKey :: "string \<Rightarrow> string" where
  "normalizeKey s = trim s"

text \<open>
  \<open>placeNote\<close>: the position is taken to world space by \<open>b2w\<close>; the orientation is a fresh
  \<open>THREE.Quaternion()\<close>, which is the identity.  The argument \<open>textColor\<close> of the source is
  not stored and is left out.
\<close>

definition placeNote ::
  "(nat \<Rightarrow> string) \<Rightarrow> string \<Rightarrow> string \<Rightarrow> string option \<Rightarrow> string \<Rightarrow> vec3 \<Rightarrow> real \<Rightarrow>
   (vec3 \<Rightarrow> vec3) \<Rightarrow> bool option \<Rightarrow> store \<Rightarrow> string \<times> store"
where
  "placeNote uid boardId title detail color local noteSize b2w aiGenerated st =
     (let posW = b2w local;
          q = (0, 0, 0, 1);
          txt = (if truthy_str detail then title @ [CHR 0x0A] @ or_empty detail else title);
          note = \<lparr>n_text = txt, n_color = color,
                  n_pose = \<lparr>position = posW, quaternion = q\<rparr>,
                  n_size = noteSize, n_votes = 0,
                  n_aiGenerated = Some (aiGenerated = Some True), n_fromAI = None\<rparr>
      in addNote uid boardId note st)"

text \<open>The layout numbers after the defaults have been filled in.\<close>

record Layout =
  spacingX :: real
  spacingY :: real
  noteSize :: real
  startX :: real
  startY :: real

definition layout_of :: "ApplyOpts option \<Rightarrow> Layout" where
  "layout_of opts =
     \<lparr>spacingX = opt_num opts o_spacingX 0.28,
      spacingY = opt_num opts o_spacingY 0.20,
      noteSize = opt_num opts o_noteSize 0.18,
      startX = opt_num opts o_startX (- 0.6),
      startY = opt_num opts o_startY 0.35\<rparr>"

definition given_colors :: "ApplyOpts option \<Rightarrow> (string \<rightharpoonup> string)" where
  "given_colors opts = (case opts of
       None \<Rightarrow> Map.empty
     | Some os \<Rightarrow> (case o_colorByLane os of None \<Rightarrow> Map.empty | Some m \<Rightarrow> m))"

text \<open>
  \<open>boardLocalToWorld\<close>: \<open>local.clone().applyQuaternion(bQuat).add(bPos)\<close>.  The rotation
  of the graphics library is the parameter \<open>rot\<close>.
\<close>

definition vadd :: "vec3 \<Rightarrow> vec3 \<Rightarrow> vec3" where
  "vadd a b = (case a of (ax, ay, az) \<Rightarrow> case b of (bx, by, bz) \<Rightarrow> (ax + bx, ay + by, az + bz))"

definition boardLocalToWorld :: "(vec3 \<Rightarrow> quat \<Rightarrow> vec3) \<Rightarrow> Board \<Rightarrow> vec3 \<Rightarrow> vec3" where
  "boardLocalToWorld rot board local = vadd (rot local (b_quaternion board)) (b_position board)"

text \<open>
  The inner loop over the rows of one lane, from row \<open>r\<close> on.  The state is the table
  \<open>idByTaskKey\<close> and the store.  Every lane has a colour once \<open>assign_colors\<close> has run.
\<close>

fun place_tasks ::
  "(nat \<Rightarrow> string) \<Rightarrow> string \<Rightarrow> (vec3 \<Rightarrow> vec3) \<Rightarrow> Layout \<Rightarrow> string \<Rightarrow> nat \<Rightarrow> nat \<Rightarrow>
   PlanTask list \<Rightarrow> (string \<rightharpoonup> string) \<times> store \<Rightarrow> (string \<rightharpoonup> string) \<times> store"
where
  "place_tasks uid boardId b2w lay color lx r [] ms = ms"
| "place_tasks uid boardId b2w lay color lx r (t # ts) ms =
     (let title = summarizeTaskTitle (pt_title t) (pt_priority t) (pt_owner t) (pt_eta t);
          placed = placeNote uid boardId title (pt_description t) color
                     (startX lay + real lx * spacingX lay,
                      startY lay - (real r + 1) * spacingY lay, 0)
                     (noteSize lay) b2w (Some True) (snd ms);
          key = (if truthy_str (pt_id t) then or_empty (pt_id t) else pt_title t)
      in place_tasks uid boardId b2w lay color lx (Suc r) ts
           ((fst ms)(key \<mapsto> fst placed), snd placed))"

text \<open>The outer loop over the lanes, from lane index \<open>lx\<close> on: the header, then the rows.\<close>

fun place_lanes ::
  "(nat \<Rightarrow> string) \<Rightarrow> string \<Rightarrow> (vec3 \<Rightarrow> vec3) \<Rightarrow> Layout \<Rightarrow> (string \<rightharpoonup> string) \<Rightarrow>
   (string \<Rightarrow> PlanTask list) \<Rightarrow> nat \<Rightarrow> string list \<Rightarrow>
   (string \<rightharpoonup> string) \<times> store \<Rightarrow> (string \<rightharpoonup> string) \<times> store"
where
  "place_lanes uid boardId b2w lay colors byLane lx [] ms = ms"
| "place_lanes uid boardId b2w lay colors byLane lx (lane # rest) ms =
     (let header = placeNote uid boardId (HEADER_GLYPH @ '' '' @ lane) None ''#111827''
                     (startX lay + real lx * spacingX lay, startY lay, 0)
                     (noteSize lay * 0.75) b2w (Some True) (snd ms)
      in place_lanes uid boardId b2w lay colors byLane (Suc lx) rest
           (place_tasks uid boardId b2w lay (or_empty (colors lane)) lx 0 (byLane lane)
              (fst ms, snd header)))"

text \<open>
  The loop over \<open>workflow_edges\<close>.  The call in the source is
  \<open>addEdge(boardId, fromId, toId, { aiGenerated: true })\<close>: the object is the fourth
  argument, which is the parameter \<open>kind\<close>, and no fifth argument is given.
\<close>

definition resolve_key :: "(string \<rightharpoonup> string) \<Rightarrow> string \<Rightarrow> string option" where
  "resolve_key m k = or_str (m k) (m (normalizeKey k))"

definition wires :: "(string \<rightharpoonup> string) \<Rightarrow> PlanEdge \<Rightarrow> bool" where
  "wires m e = (truthy_str (resolve_key m (pe_from e)) \<and> truthy_str (resolve_key m (pe_to e))
     \<and> resolve_key m (pe_from e) \<noteq> resolve_key m (pe_to e))"

fun wire_edges ::
  "(nat \<Rightarrow> string) \<Rightarrow> string \<Rightarrow> (string \<rightharpoonup> string) \<Rightarrow> PlanEdge list \<Rightarrow> store \<Rightarrow> store"
where
  "wire_edges uid boardId m [] st = st"
| "wire_edges uid boardId m (e # es) st =
     (if wires m e
      then wire_edges uid boardId m es
             (snd (addEdge uid boardId (or_empty (resolve_key m (pe_from e)))
                     (or_empty (resolve_key m (pe_to e)))
                     (Some (KindObject \<lparr>x_aiGenerated = Some True, x_fromAI = None\<rparr>)) None st))
      else wire_edges uid boardId m es st)"

text \<open>The notes of the plan: the table \<open>idByTaskKey\<close> and the store after the two loops.\<close>

definition place_plan ::
  "(nat \<Rightarrow> string) \<Rightarrow> (vec3 \<Rightarrow> quat \<Rightarrow> vec3) \<Rightarrow> string \<Rightarrow> Board \<Rightarrow> PlanWorkplan \<Rightarrow>
   PlanTask list \<Rightarrow> ApplyOpts option \<Rightarrow> store \<Rightarrow> (string \<rightharpoonup> string) \<times> store"
where
  "place_plan uid rot boardId board wp ts opts st =
     (let lanes = plan_lanes wp in
      place_lanes uid boardId (boardLocalToWorld rot board) (layout_of opts)
        (assign_colors (given_colors opts) lanes)
        (build_byLane lanes (opt_num opts o_maxPerLane 8) ts)
        0 lanes (Map.empty, st))"

definition board_of :: "XR \<Rightarrow> Board option" where
  "board_of xr = (case boardMesh xr of Some b \<Rightarrow> Some b | None \<Rightarrow> boardAnchor xr)"

definition plan_tasks :: "Plan option \<Rightarrow> (Plan \<times> PlanWorkplan \<times> PlanTask list) option" where
  "plan_tasks aiOut = (case aiOut of
       None \<Rightarrow> None
     | Some p \<Rightarrow> (case p_workplan p of
         None \<Rightarrow> None
       | Some wp \<Rightarrow> (case pw_tasks wp of
           None \<Rightarrow> None
         | Some ts \<Rightarrow> if ts = [] then None else Some (p, wp, ts))))"

text \<open>
  \<open>applyPlanToWall\<close>: the result is the outcome (an error thrown, or completion) and the
  store afterwards.  \<open>plan_tasks\<close> is the first guard; it yields the plan, its work plan
  and its non-empty task list.
\<close>

definition applyPlanToWall ::
  "(nat \<Rightarrow> string) \<Rightarrow> (vec3 \<Rightarrow> quat \<Rightarrow> vec3) \<Rightarrow> string \<Rightarrow> XR option \<Rightarrow> Plan option \<Rightarrow>
   ApplyOpts option \<Rightarrow> store \<Rightarrow> (js_error + unit) \<times> store"
where
  "applyPlanToWall uid rot boardId xr aiOut opts st =
     (case plan_tasks aiOut of
        None \<Rightarrow> (Inl (Error ''No tasks to apply.''), st)
      | Some (p, wp, ts) \<Rightarrow>
          (case xr of
             None \<Rightarrow> (Inl TypeError, st)
           | Some scene \<Rightarrow>
               (case board_of scene of
                  None \<Rightarrow> (Inl (Error ''Board not placed yet.''), st)
                | Some board \<Rightarrow>
                    (let placed = place_plan uid rot boardId board wp ts opts st in
                     (Inr (),
                      (case p_workflow_edges p of
                         None \<Rightarrow> snd placed
                       | Some es \<Rightarrow> wire_edges uid boardId (fst placed) es (snd placed)))))))"

section \<open>Sample inputs\<close>

definition sample_uuid :: "nat \<Rightarrow> string" where
  "sample_uuid n = ''id-'' @ digits_of n"

definition no_rotation :: "vec3 \<Rightarrow> quat \<Rightarrow> vec3" where
  "no_rotation v q = v"

definition empty_store :: store where
  "empty_store = \<lparr>notes_ls = (\<lambda>b. []), edges_ls = (\<lambda>b. []), events = [], uid_count = 0\<rparr>"

definition origin_board :: Board where
  "origin_board = \<lparr>b_position = (0, 0, 0), b_quaternion = (0, 0, 0, 1)\<rparr>"

definition placed_xr :: XR where
  "placed_xr = \<lparr>boardMesh = Some origin_board, boardAnchor = None\<rparr>"

definition unplaced_xr :: XR where
  "unplaced_xr = \<lparr>boardMesh = None, boardAnchor = None\<rparr>"

definition plain_task :: "string \<Rightarrow> PlanTask" where
  "plain_task title = \<lparr>pt_id = None, pt_title = title, pt_description = None, pt_owner = None,
     pt_eta = None, pt_priority = None, pt_lane = None\<rparr>"

definition plan_AB :: Plan where
  "plan_AB = \<lparr>p_summary_md = [],
     p_workplan = Some \<lparr>pw_tasks = Some [plain_task ''A'', plain_task ''B''], pw_lanes = None\<rparr>,
     p_workflow_edges = Some [\<lparr>pe_from = ''A'', pe_to = ''B'', pe_kind = None\<rparr>,
                              \<lparr>pe_from = ''A'', pe_to = ''A'', pe_kind = None\<rparr>,
                              \<lparr>pe_from = ''A'', pe_to = ''C'', pe_kind = None\<rparr>]\<rparr>"

definition plan_empty :: Plan where
  "plan_empty = \<lparr>p_summary_md = [],
     p_workplan = Some \<lparr>pw_tasks = Some [], pw_lanes = None\<rparr>,
     p_workflow_edges = None\<rparr>"

text \<open>A sample rotation: the rotation of a vector by a unit quaternion \<open>(x, y, z, w)\<close>.\<close>

definition quat_rotate :: "vec3 \<Rightarrow> quat \<Rightarrow> vec3" where
  "quat_rotate v q = (case v of (vx, vy, vz) \<Rightarrow> case q of (qx, qy, qz, qw) \<Rightarrow>
     (let tx = 2 * (qy * vz - qz * vy);
          ty = 2 * (qz * vx - qx * vz);
          tz = 2 * (qx * vy - qy * vx)
      in (vx + qw * tx + qy * tz - qz * ty,
          vy + qw * ty + qz * tx - qx * tz,
          vz + qw * tz + qx * ty - qy * tx)))"

definition turned_board :: Board where
  "turned_board = \<lparr>b_position = (1, 2, 3), b_quaternion = (0, 0, 1, 0)\<rparr>"

definition turned_xr :: XR where
  "turned_xr = \<lparr>boardMesh = None, boardAnchor = Some turned_board\<rparr>"

definition plan_dangling :: Plan where
  "plan_dangling = \<lparr>p_summary_md = [],
     p_workplan = Some \<lparr>pw_tasks = Some [plain_task ''A'', plain_task ''B''], pw_lanes = None\<rparr>,
     p_workflow_edges = Some [\<lparr>pe_from = ''A'', pe_to = ''C'', pe_kind = None\<rparr>,
                              \<lparr>pe_from = ''A'', pe_to = ''A'', pe_kind = None\<rparr>,
                              \<lparr>pe_from = ''A'', pe_to = ''B'', pe_kind = None\<rparr>,
                              \<lparr>pe_from = ''B'', pe_to = '' A '', pe_kind = None\<rparr>]\<rparr>"

definition plan_dangling_removed :: Plan where
  "plan_dangling_removed = \<lparr>p_summary_md = [],
     p_workplan = Some \<lparr>pw_tasks = Some [plain_task ''A'', plain_task ''B''], pw_lanes = None\<rparr>,
     p_workflow_edges = Some [\<lparr>pe_from = ''A'', pe_to = ''A'', pe_kind = None\<rparr>,
                              \<lparr>pe_from = ''A'', pe_to = ''B'', pe_kind = None\<rparr>,
                              \<lparr>pe_from = ''B'', pe_to = '' A '', pe_kind = None\<rparr>]\<rparr>"

definition raw_mixed :: json where
  "raw_mixed = JObj [
     (''summary_md'', JStr ''Plan''),
     (''workplan'', JObj [(''tasks'', JArr [
        JObj [(''title'', JStr ''  A ''), (''priority'', JStr ''critical''), (''id'', JNum 7)],
        JObj [(''title'', JStr ''   '')],
        JNum 5,
        JObj [(''title'', JStr ''B''), (''owner'', JStr [])]])]),
     (''workflow_edges'', JArr [
        JObj [(''from'', JStr '' A''), (''to'', JStr ''B ''), (''kind'', JStr ''blocks'')],
        JObj [(''from'', JStr ''A''), (''to'', JNull)]])]"

definition out_mixed :: AIOutput where
  "out_mixed = \<lparr>summary_md = ''Plan'',
     workplan = \<lparr>wp_tasks = [
       \<lparr>t_title = ''A'', t_priority = Some ''critical'', t_owner = None, t_eta = None,
        t_lane = None, t_id = Some ''7''\<rparr>,
       \<lparr>t_title = ''B'', t_priority = None, t_owner = None, t_eta = None,
        t_lane = None, t_id = None\<rparr>]\<rparr>,
     workflow_edges = [\<lparr>e_from = ''A'', e_to = ''B'', e_kind = Some ''blocks''\<rparr>]\<rparr>"

definition raw_array_priority :: json where
  "raw_array_priority = JObj [(''workplan'', JObj [(''tasks'', JArr [
     JObj [(''title'', JStr ''A''), (''priority'', JArr [])]])])]"

section \<open>Notions used in the statements\<close>

text \<open>
  The text \<open>s\<close> holds the word \<open>w\<close>: \<open>w\<close> occurs in \<open>s\<close> with no word character directly
  before it and none directly after it.
\<close>

definition holds_word :: "string \<Rightarrow> string \<Rightarrow> bool" where
  "holds_word w s =
     (\<exists>pre post. s = pre @ w @ post \<and> (pre = [] \<or> \<not> is_word (last pre))
        \<and> (post = [] \<or> \<not> is_word (hd post)))"

text \<open>
  The notes a plan asks for, as the layout rules word them: the lanes are columns from
  left to right, \<open>spacingX\<close> apart; a lane's header stands at \<open>startY\<close>, and the task in row
  \<open>r\<close> (counted from 0) stands at \<open>startY - (r + 1) * spacingY\<close>.  Each entry is the text of
  a note and its board-local point; the lanes and the tasks kept per lane are those of
  the applier.
\<close>

definition task_text :: "PlanTask \<Rightarrow> string" where
  "task_text t =
     (let title = summarizeTaskTitle (pt_title t) (pt_priority t) (pt_owner t) (pt_eta t)
      in if truthy_str (pt_description t) then title @ [CHR 0x0A] @ or_empty (pt_description t)
         else title)"

definition header_local :: "Layout \<Rightarrow> nat \<Rightarrow> vec3" where
  "header_local lay lx = (startX lay + real lx * spacingX lay, startY lay, 0)"

definition row_local :: "Layout \<Rightarrow> nat \<Rightarrow> nat \<Rightarrow> vec3" where
  "row_local lay lx r =
     (startX lay + real lx * spacingX lay, startY lay - (real r + 1) * spacingY lay, 0)"

definition planned_rows :: "Layout \<Rightarrow> nat \<Rightarrow> nat \<Rightarrow> PlanTask list \<Rightarrow> (string \<times> vec3) list" where
  "planned_rows lay lx r ts = map (\<lambda>(i, t). (task_text t, row_local lay lx i)) (enumerate r ts)"

definition planned_lanes ::
  "Layout \<Rightarrow> (string \<Rightarrow> PlanTask list) \<Rightarrow> nat \<Rightarrow> string list \<Rightarrow> (string \<times> vec3) list" where
  "planned_lanes lay byLane lx lanes =
     concat (map (\<lambda>(i, lane). (HEADER_GLYPH @ '' '' @ lane, header_local lay i)
                                # planned_rows lay i 0 (byLane lane))
                 (enumerate lx lanes))"

definition planned_notes :: "PlanWorkplan \<Rightarrow> PlanTask list \<Rightarrow> ApplyOpts option \<Rightarrow> (string \<times> vec3) list" where
  "planned_notes wp ts opts =
     planned_lanes (layout_of opts)
       (build_byLane (plan_lanes wp) (opt_num opts o_maxPerLane 8) ts) 0 (plan_lanes wp)"

text \<open>A note as the applier stores it: no votes, the identity orientation, the AI tag.\<close>

definition applied_note :: "StoredNote \<Rightarrow> bool" where
  "applied_note n =
     (n_votes n = 0 \<and> quaternion (n_pose n) = (0, 0, 0, 1) \<and> n_aiGenerated n = Some True)"

text \<open>The key under which the applier files the note of a task: \<open>t.id || t.title\<close>.\<close>

definition plan_task_key :: "PlanTask \<Rightarrow> string" where
  "plan_task_key t = (if truthy_str (pt_id t) then or_empty (pt_id t) else pt_title t)"

text \<open>The tasks that get a note: those kept in the lanes, lane by lane.\<close>

definition kept_tasks :: "PlanWorkplan \<Rightarrow> PlanTask list \<Rightarrow> ApplyOpts option \<Rightarrow> PlanTask list" where
  "kept_tasks wp ts opts =
     concat (map (build_byLane (plan_lanes wp) (opt_num opts o_maxPerLane 8) ts) (plan_lanes wp))"

text \<open>The workflow edges of a plan, none when the field is absent.\<close>

definition plan_edges :: "Plan \<Rightarrow> PlanEdge list" where
  "plan_edges p = (case p_workflow_edges p of None \<Rightarrow> [] | Some es \<Rightarrow> es)"

text \<open>The two ends that the applier gives to the edge made for a workflow edge.\<close>

definition wired_ends :: "(string \<rightharpoonup> string) \<Rightarrow> PlanEdge \<Rightarrow> string \<times> string" where
  "wired_ends m e =
     (or_empty (resolve_key m (pe_from e)), or_empty (resolve_key m (pe_to e)))"

text \<open>The normalizer applied to its own output.\<close>

definition renormalize :: "json \<Rightarrow> js_error + AIOutput" where
  "renormalize raw = bindE (normalizeAIOutput raw) (\<lambda>out. normalizeAIOutput (outputJson out))"

text \<open>No optional field of a task or an edge is the empty string.\<close>

definition no_empty_optional :: "AIOutput \<Rightarrow> bool" where
  "no_empty_optional out =
     (list_all (\<lambda>t. t_priority t \<noteq> Some [] \<and> t_owner t \<noteq> Some [] \<and> t_eta t \<noteq> Some []
                     \<and> t_lane t \<noteq> Some [] \<and> t_id t \<noteq> Some []) (wp_tasks (workplan out))
      \<and> list_all (\<lambda>e. e_kind e \<noteq> Some []) (workflow_edges out))"

text \<open>Titles and edge ends are non-empty and trimmed.\<close>

definition canonical :: "AIOutput \<Rightarrow> bool" where
  "canonical out =
     (list_all (\<lambda>t. t_title t \<noteq> [] \<and> trim (t_title t) = t_title t) (wp_tasks (workplan out))
      \<and> list_all (\<lambda>e. e_from e \<noteq> [] \<and> trim (e_from e) = e_from e
                       \<and> e_to e \<noteq> [] \<and> trim (e_to e) = e_to e) (workflow_edges out))"

text \<open>Every task priority is one of \<open>P0\<close>, \<open>P1\<close>, \<open>P2\<close>.\<close>

definition priorities_closed :: "AIOutput \<Rightarrow> bool" where
  "priorities_closed out =
     list_all (\<lambda>t. t_priority t = Some ''P0'' \<or> t_priority t = Some ''P1'' \<or> t_priority t = Some ''P2'')
       (wp_tasks (workplan out))"

text \<open>
  A raw value no object of which has an own property \<open>toString\<close>: every value that
  \<open>JSON.parse\<close> yields from text without that key.
\<close>

fun plain :: "json \<Rightarrow> bool" where
  "plain (JArr xs) = list_all plain xs"
| "plain (JObj kvs) = (''toString'' \<notin> set (map fst kvs) \<and> list_all (\<lambda>kv. plain (snd kv)) kvs)"
| "plain v = True"

text \<open>What a second pass of the normalizer does to an optional field, a task, an edge.\<close>

definition scrub :: "string option \<Rightarrow> string option" where
  "scrub x = (if x = Some [] then None else x)"

definition scrub_task :: "AITask \<Rightarrow> AITask" where
  "scrub_task a = \<lparr>t_title = t_title a, t_priority = scrub (t_priority a),
     t_owner = scrub (t_owner a), t_eta = scrub (t_eta a), t_lane = scrub (t_lane a),
     t_id = scrub (t_id a)\<rparr>"

definition scrub_edge :: "AIWorkflowEdge \<Rightarrow> AIWorkflowEdge" where
  "scrub_edge a = \<lparr>e_from = e_from a, e_to = e_to a, e_kind = scrub (e_kind a)\<rparr>"

definition scrub_output :: "AIOutput \<Rightarrow> AIOutput" where
  "scrub_output out = \<lparr>summary_md = summary_md out,
     workplan = \<lparr>wp_tasks = map scrub_task (wp_tasks (workplan out))\<rparr>,
     workflow_edges = map scrub_edge (workflow_edges out)\<rparr>"

section \<open>Properties of the heuristic deriver\<close>

lemma bindE_Inr_iff: "bindE x f = Inr b \<longleftrightarrow> (\<exists>a. x = Inr a \<and> f a = Inr b)"
  by (cases x) (simp_all add: bindE_def)

lemma bindE_Inr [simp]: "bindE (Inr a) f = f a"
  by (simp add: bindE_def)

lemma trim_empty_iff: "trim s = [] \<longleftrightarrow> list_all is_ws s"
  by (auto simp: trim_def list_all_iff dropWhile_eq_Nil_conv dest: set_dropWhileD)
    (metis dropWhile_eq_Nil_conv hd_dropWhile list.set_sel(1))

lemma collapse_ws_all_ws: "list_all is_ws s \<Longrightarrow> list_all is_ws (collapse_ws b s)"
  by (induction s arbitrary: b) (auto simp: is_ws_def code_def)

lemma split_by_sentence_all_ws:
  "list_all is_ws s \<Longrightarrow> prev \<notin> {Some CHR ''.'', Some CHR ''!'', Some CHR ''?''} \<Longrightarrow>
   split_by sentence_sep prev acc s = [rev acc @ s]"
proof (induction s arbitrary: prev acc)
  case Nil
  then show ?case by simp
next
  case (Cons c cs)
  have "sentence_sep prev (c # cs) = None"
    using Cons.prems(2) by (auto simp: sentence_sep_def)
  moreover have "Some c \<notin> {Some CHR ''.'', Some CHR ''!'', Some CHR ''?''}"
    using Cons.prems(1) by (auto simp: is_ws_def code_def)
  ultimately show ?case
    using Cons.IH[of "Some c" "c # acc"] Cons.prems(1) by simp
qed

lemma splitSentences_blank:
  assumes "trim text = []"
  shows "splitSentences text = []"
proof -
  have a: "list_all is_ws (collapse_ws False text)"
    using assms by (simp add: trim_empty_iff collapse_ws_all_ws)
  then have "js_split sentence_sep (collapse_ws False text) = [collapse_ws False text]"
    using split_by_sentence_all_ws[of "collapse_ws False text" None "[]"]
    by (simp add: js_split_def)
  moreover have "trim (collapse_ws False text) = []"
    using a by (simp add: trim_empty_iff)
  ultimately show ?thesis
    by (simp add: splitSentences_def)
qed

lemma discoveredTasks_blank: "trim text = [] \<Longrightarrow> discoveredTasks rnd text mx = Inr []"
  by (simp add: discoveredTasks_def rawLines_def splitSentences_blank)

lemma collectTasks_bound:
  "length tasks < n \<Longrightarrow> collectTasks rnd (real n) ls seen tasks = Inr res \<Longrightarrow> length res \<le> n"
proof (induction ls arbitrary: seen tasks)
  case Nil
  then show ?case by simp
next
  case (Cons line rest)
  show ?case
  proof (cases "line = [] \<or> length line < 6 \<or> \<not> looksActionable line \<or> task_key line \<in> set seen")
    case True
    then have "collectTasks rnd (real n) rest seen tasks = Inr res"
      using Cons.prems(2) by (auto split: if_splits)
    then show ?thesis
      using Cons.IH[of tasks seen] Cons.prems(1) by simp
  next
    case False
    then obtain uuid where rnd: "rnd = Some uuid"
      using Cons.prems(2) by (cases rnd) auto
    let ?tasks = "tasks @ [\<lparr>dt_id = uuid (length tasks), dt_title = line,
                            dt_lane = detectLane line, dt_prio = detectPriority line\<rparr>]"
    show ?thesis
    proof (cases "n \<le> length ?tasks")
      case True
      then have "res = ?tasks"
        using Cons.prems(2) False rnd by (simp add: Let_def)
      then show ?thesis
        using Cons.prems(1) by simp
    next
      case stay: False
      then have "collectTasks rnd (real n) rest (task_key line # seen) ?tasks = Inr res"
        using Cons.prems(2) False rnd by (simp add: Let_def)
      then show ?thesis
        using Cons.IH[of ?tasks "task_key line # seen"] stay by simp
    qed
  qed
qed

lemma collectTasks_returns: "\<exists>res. collectTasks (Some uuid) mx ls seen tasks = Inr res"
  by (induction ls arbitrary: seen tasks) (auto simp: Let_def)

lemma derive_returns: "\<exists>res. deriveTasksFromTranscript (Some uuid) text mx = Inr res"
proof -
  obtain d where "discoveredTasks (Some uuid) text mx = Inr d"
    using collectTasks_returns[of uuid mx "rawLines text" "[]" "[]"]
    by (auto simp: discoveredTasks_def)
  then show ?thesis
    by (simp add: deriveTasksFromTranscript_def)
qed

lemma derive_Inr_D:
  assumes "deriveTasksFromTranscript rnd text mx = Inr r"
  shows "\<exists>d. discoveredTasks rnd text mx = Inr d \<and> r = sort_key dt_prio d"
proof (cases "trim text = []")
  case True
  then show ?thesis
    using assms by (simp add: deriveTasksFromTranscript_def discoveredTasks_blank)
next
  case False
  then show ?thesis
    using assms by (auto simp: deriveTasksFromTranscript_def bindE_Inr_iff)
qed

lemma derive_without_randomUUID:
  "deriveTasksFromTranscript None ''Fix the crash now.'' 8 = Inl TypeError"
  by code_simp

lemma derive_fractional_bound:
  "map dt_title (projr (deriveTasksFromTranscript (Some sample_uuid)
      ''Fix the crash now. Add a test.'' 1.5)) = [''Fix the crash now.'', ''Add a test.'']"
  by code_simp

text \<open>
  C5, as stated: \<open>derive("This is a P0 blocker: fix the crash.", 8)\<close> yields exactly one task.
  It yields none.
\<close>

theorem C5_single_task_counterexample:
  "deriveTasksFromTranscript (Some sample_uuid) ''This is a P0 blocker: fix the crash.'' 8 = Inr []"
  by code_simp

text \<open>
  C5, amended: on the input \<open>This is a P0 blocker: fix the crash.\<close> with bound 8 the deriver
  returns no task, because the only candidate line does not look actionable (it starts
  with no verb of the list and holds no sequencing word, bullet, \<open>task\<close> or \<open>step\<close>); the
  priority scan of that line does give 0.
\<close>

theorem C5_priority_scenario:
  "deriveTasksFromTranscript rnd ''This is a P0 blocker: fix the crash.'' 8 = Inr []
   \<and> rawLines ''This is a P0 blocker: fix the crash.'' = [''This is a P0 blocker: fix the crash.'']
   \<and> looksActionable ''This is a P0 blocker: fix the crash.'' = False
   \<and> detectPriority ''This is a P0 blocker: fix the crash.'' = 0"
  by code_simp

theorem C5_priority_scenario_witness:
  "deriveTasksFromTranscript None ''This is a P0 blocker: fix the crash.'' 8 = Inr []"
  using C5_priority_scenario[of None] by simp

text \<open>
  C7, as stated: the result is never longer than \<open>maxTasks\<close>.  With the bound 0 an
  actionable sentence still yields one task, since the bound is tested after the push.
\<close>

theorem C7_bound_counterexample:
  "deriveTasksFromTranscript (Some sample_uuid) ''Fix the crash now.'' 0
     = Inr [\<lparr>dt_id = ''id-0'', dt_title = ''Fix the crash now.'', dt_lane = Frontend, dt_prio = 0\<rparr>]"
  by code_simp

text \<open>
  C7, amended: for every transcript text and every whole-number bound \<open>maxTasks \<ge> 1\<close>, a
  list that the deriver returns has at most \<open>maxTasks\<close> tasks; for empty or
  whitespace-only text it returns the empty list; and wherever \<open>crypto.randomUUID\<close> is
  available it returns a list and throws nothing, for every text and every bound.
\<close>

theorem C7_derive_bounded:
  "(1 \<le> n \<and> deriveTasksFromTranscript rnd text (real n) = Inr res \<longrightarrow> length res \<le> n)
   \<and> (trim text = [] \<longrightarrow> deriveTasksFromTranscript rnd text mx = Inr [])
   \<and> (rnd = Some uuid \<longrightarrow> (\<exists>r. deriveTasksFromTranscript rnd text mx = Inr r))"
proof (intro conjI impI)
  assume a: "1 \<le> n \<and> deriveTasksFromTranscript rnd text (real n) = Inr res"
  then obtain d where d: "discoveredTasks rnd text (real n) = Inr d" "res = sort_key dt_prio d"
    using derive_Inr_D by blast
  have "length d \<le> n"
    using collectTasks_bound[of "[]" n rnd "rawLines text" "[]" d] a d(1)
    by (simp add: discoveredTasks_def)
  then show "length res \<le> n"
    using d(2) by simp
next
  assume "trim text = []"
  then show "deriveTasksFromTranscript rnd text mx = Inr []"
    by (simp add: deriveTasksFromTranscript_def)
next
  assume "rnd = Some uuid"
  then show "\<exists>r. deriveTasksFromTranscript rnd text mx = Inr r"
    using derive_returns by simp
qed

theorem C7_derive_bounded_witness:
  "map dt_title (projr (deriveTasksFromTranscript (Some sample_uuid)
      ''Fix the crash now. Add a test. Build the rest.'' 2))
     = [''Fix the crash now.'', ''Add a test.'']
   \<and> length (projr (deriveTasksFromTranscript (Some sample_uuid)
      ''Fix the crash now. Add a test. Build the rest.'' 2)) \<le> 2
   \<and> deriveTasksFromTranscript None [CHR '' '', CHR 0x09, CHR '' ''] 2 = Inr []
   \<and> isl (deriveTasksFromTranscript (Some sample_uuid)
      ''Fix the crash now. Add a test. Build the rest.'' 2) = False"
proof -
  let ?text = "''Fix the crash now. Add a test. Build the rest.''"
  have blank: "trim [CHR '' '', CHR 0x09, CHR '' ''] = []"
    by code_simp
  obtain r where r: "deriveTasksFromTranscript (Some sample_uuid) ?text (real 2) = Inr r"
    using C7_derive_bounded[of 2 "Some sample_uuid" ?text r "real 2" sample_uuid] by auto
  have titles: "map dt_title (projr (deriveTasksFromTranscript (Some sample_uuid) ?text 2))
     = [''Fix the crash now.'', ''Add a test.'']"
    by code_simp
  have "length r \<le> 2"
    using C7_derive_bounded[of 2 "Some sample_uuid" ?text r "real 2" sample_uuid] r by simp
  moreover have "deriveTasksFromTranscript None [CHR '' '', CHR 0x09, CHR '' ''] 2 = Inr []"
    using C7_derive_bounded[of 2 None "[CHR '' '', CHR 0x09, CHR '' '']" "[]" 2 sample_uuid] blank
    by simp
  ultimately show ?thesis
    using r titles by simp
qed

text \<open>
  C8: a list returned by the deriver is sorted by priority ascending, that is every task
  has a priority no greater than its successor's, and the tasks of one priority stand in
  the order in which they were discovered in the text; the deriver returns such a list
  wherever \<open>crypto.randomUUID\<close> is available.
\<close>

theorem C8_derive_sorted_stable:
  "(deriveTasksFromTranscript rnd text mx = Inr r \<longrightarrow>
      (\<forall>i. Suc i < length r \<longrightarrow> dt_prio (r ! i) \<le> dt_prio (r ! Suc i))
      \<and> (\<exists>d. discoveredTasks rnd text mx = Inr d
             \<and> (\<forall>k. filter (\<lambda>t. dt_prio t = k) r = filter (\<lambda>t. dt_prio t = k) d)))
   \<and> (rnd = Some uuid \<longrightarrow> (\<exists>res. deriveTasksFromTranscript rnd text mx = Inr res))"
proof (intro conjI impI)
  assume a: "deriveTasksFromTranscript rnd text mx = Inr r"
  then obtain d where d: "discoveredTasks rnd text mx = Inr d" "r = sort_key dt_prio d"
    using derive_Inr_D by blast
  have "sorted (map dt_prio r)"
    by (simp add: d(2))
  then show "\<forall>i. Suc i < length r \<longrightarrow> dt_prio (r ! i) \<le> dt_prio (r ! Suc i)"
    by (simp add: sorted_iff_nth_Suc)
  have "\<forall>k. filter (\<lambda>t. dt_prio t = k) r = filter (\<lambda>t. dt_prio t = k) d"
    by (simp add: d(2) sort_key_stable)
  then show "\<exists>d. discoveredTasks rnd text mx = Inr d
             \<and> (\<forall>k. filter (\<lambda>t. dt_prio t = k) r = filter (\<lambda>t. dt_prio t = k) d)"
    using d(1) by blast
next
  assume "rnd = Some uuid"
  then show "\<exists>res. deriveTasksFromTranscript rnd text mx = Inr res"
    using derive_returns by simp
qed

theorem C8_derive_sorted_stable_witness:
  "map dt_title (projr (discoveredTasks (Some sample_uuid)
      ''Add a panel. Fix the crash now. Build the export soon. Show the note.'' 8))
     = [''Add a panel.'', ''Fix the crash now.'', ''Build the export soon.'', ''Show the note.'']
   \<and> map dt_title (projr (deriveTasksFromTranscript (Some sample_uuid)
      ''Add a panel. Fix the crash now. Build the export soon. Show the note.'' 8))
     = [''Fix the crash now.'', ''Build the export soon.'', ''Add a panel.'', ''Show the note.'']
   \<and> dt_prio (projr (deriveTasksFromTranscript (Some sample_uuid)
      ''Add a panel. Fix the crash now. Build the export soon. Show the note.'' 8) ! 0)
     \<le> dt_prio (projr (deriveTasksFromTranscript (Some sample_uuid)
      ''Add a panel. Fix the crash now. Build the export soon. Show the note.'' 8) ! Suc 0)
   \<and> filter (\<lambda>t. dt_prio t = 2) (projr (deriveTasksFromTranscript (Some sample_uuid)
      ''Add a panel. Fix the crash now. Build the export soon. Show the note.'' 8))
     = filter (\<lambda>t. dt_prio t = 2) (projr (discoveredTasks (Some sample_uuid)
      ''Add a panel. Fix the crash now. Build the export soon. Show the note.'' 8))"
proof -
  let ?text = "''Add a panel. Fix the crash now. Build the export soon. Show the note.''"
  have dt: "map dt_title (projr (discoveredTasks (Some sample_uuid) ?text 8))
     = [''Add a panel.'', ''Fix the crash now.'', ''Build the export soon.'', ''Show the note.'']"
    by code_simp
  have rt: "map dt_title (projr (deriveTasksFromTranscript (Some sample_uuid) ?text 8))
     = [''Fix the crash now.'', ''Build the export soon.'', ''Add a panel.'', ''Show the note.'']"
    by code_simp
  obtain r where r: "deriveTasksFromTranscript (Some sample_uuid) ?text 8 = Inr r"
    using C8_derive_sorted_stable[of "Some sample_uuid" ?text 8 r sample_uuid] by auto
  then obtain d where d: "discoveredTasks (Some sample_uuid) ?text 8 = Inr d"
      "\<forall>k. filter (\<lambda>t. dt_prio t = k) r = filter (\<lambda>t. dt_prio t = k) d"
      "\<forall>i. Suc i < length r \<longrightarrow> dt_prio (r ! i) \<le> dt_prio (r ! Suc i)"
    using C8_derive_sorted_stable[of "Some sample_uuid" ?text 8 r sample_uuid] by auto
  have "length (map dt_title r) = 4"
    using rt r by simp
  then have "Suc 0 < length r"
    by simp
  then have "dt_prio (r ! 0) \<le> dt_prio (r ! Suc 0)"
    using d(3) by blast
  then show ?thesis
    using dt rt r d(1) d(2) by simp
qed

section \<open>Properties of the plan normalizer\<close>

lemma sequenceE_map_Inr [simp]: "sequenceE (map Inr ys) = Inr ys"
  by (induction ys) simp_all

lemma sequenceE_Inr_D: "sequenceE xs = Inr ys \<Longrightarrow> xs = map Inr ys"
  by (induction xs arbitrary: ys) (auto split: sum.splits)

lemma sequenceE_map_elem:
  assumes "sequenceE (map f xs) = Inr ys" and "y \<in> set ys"
  shows "\<exists>x \<in> set xs. f x = Inr y"
proof -
  have "map f xs = map Inr ys"
    using assms(1) by (rule sequenceE_Inr_D)
  then have "Inr y \<in> set (map f xs)"
    using assms(2) by simp
  then show ?thesis by auto
qed

lemma rtrim_keeps_head:
  "\<not> is_ws x \<Longrightarrow> rev (dropWhile is_ws (rev (x # t))) = x # rev (dropWhile is_ws (rev t))"
  by (simp add: dropWhile_append)

lemma dropWhile_snoc_keep:
  "\<not> P x \<Longrightarrow> dropWhile P (dropWhile P ys @ [x]) = dropWhile P ys @ [x]"
proof (cases "dropWhile P ys")
  case Nil
  assume "\<not> P x"
  then show ?thesis by (simp add: Nil)
next
  case (Cons a as)
  then have "\<not> P a"
    using hd_dropWhile[of P ys] by auto
  then show ?thesis by (simp add: Cons)
qed

lemma trim_Nil [simp]: "trim [] = []"
  by (simp add: trim_def)

lemma trim_idem [simp]: "trim (trim s) = trim s"
proof (cases "dropWhile is_ws s")
  case Nil
  have "trim s = []"
    unfolding trim_def Nil by simp
  then show ?thesis by simp
next
  case (Cons x t)
  then have nx: "\<not> is_ws x"
    using hd_dropWhile[of is_ws s] by auto
  have "trim s = x # rev (dropWhile is_ws (rev t))"
    using Cons nx by (simp add: trim_def rtrim_keeps_head del: rev.simps)
  moreover have "trim (x # rev (dropWhile is_ws (rev t))) = x # rev (dropWhile is_ws (rev t))"
    using nx by (simp add: trim_def dropWhile_snoc_keep)
  ultimately show ?thesis by simp
qed

lemma normTask_title: "normTask t = Inr a \<Longrightarrow> trim (t_title a) = t_title a"
  by (auto simp: normTask_def bindE_Inr_iff)

lemma normTask_priority:
  "normTask t = Inr a \<Longrightarrow> str_if_truthy (get_prop t ''priority'') = Inr (t_priority a)"
  by (auto simp: normTask_def bindE_Inr_iff)

lemma normEdge_ends:
  "normEdge e = Inr a \<Longrightarrow> trim (e_from a) = e_from a \<and> trim (e_to a) = e_to a"
  by (auto simp: normEdge_def bindE_Inr_iff)

lemma normalize_canonical:
  assumes "normalizeAIOutput raw = Inr out"
  shows "canonical out"
proof -
  from assms obtain ts es summary where
    ts: "sequenceE (map normTask (toArray (get_prop (get_prop raw ''workplan'') ''tasks''))) = Inr ts"
    and es: "sequenceE (map normEdge (toArray (get_prop raw ''workflow_edges''))) = Inr es"
    and out: "out = \<lparr>summary_md = summary,
            workplan = \<lparr>wp_tasks = filter (\<lambda>t. 0 < length (t_title t)) ts\<rparr>,
            workflow_edges = filter (\<lambda>e. 0 < length (e_from e) \<and> 0 < length (e_to e)) es\<rparr>"
    by (auto simp: normalizeAIOutput_def bindE_Inr_iff)
  have "\<forall>t \<in> set ts. trim (t_title t) = t_title t"
    using sequenceE_map_elem[OF ts] normTask_title by blast
  moreover have "\<forall>e \<in> set es. trim (e_from e) = e_from e \<and> trim (e_to e) = e_to e"
    using sequenceE_map_elem[OF es] normEdge_ends by blast
  ultimately show ?thesis
    by (simp add: out canonical_def list_all_iff)
qed

lemma str_if_truthy_optJson [simp]: "str_if_truthy (optJson x) = Inr (scrub x)"
  by (cases x) (auto simp: str_if_truthy_def optJson_def scrub_def)

lemma normTask_taskJson:
  "normTask (taskJson a) = Inr \<lparr>t_title = trim (t_title a), t_priority = scrub (t_priority a),
     t_owner = scrub (t_owner a), t_eta = scrub (t_eta a), t_lane = scrub (t_lane a),
     t_id = scrub (t_id a)\<rparr>"
  by (simp add: normTask_def taskJson_def get_prop_def str_or_empty_def nullish_def)

lemma normEdge_edgeJson:
  "normEdge (edgeJson a) =
     Inr \<lparr>e_from = trim (e_from a), e_to = trim (e_to a), e_kind = scrub (e_kind a)\<rparr>"
  by (simp add: normEdge_def edgeJson_def get_prop_def str_or_empty_def nullish_def)

lemma normalize_outputJson:
  assumes "canonical out"
  shows "normalizeAIOutput (outputJson out) = Inr (scrub_output out)"
proof -
  have t: "map normTask (map taskJson (wp_tasks (workplan out)))
             = map Inr (map scrub_task (wp_tasks (workplan out)))"
    using assms by (simp add: canonical_def list_all_iff normTask_taskJson scrub_task_def)
  have e: "map normEdge (map edgeJson (workflow_edges out))
             = map Inr (map scrub_edge (workflow_edges out))"
    using assms by (simp add: canonical_def list_all_iff normEdge_edgeJson scrub_edge_def)
  have ft: "filter (\<lambda>t. t_title t \<noteq> []) (map scrub_task (wp_tasks (workplan out)))
             = map scrub_task (wp_tasks (workplan out))"
    using assms by (simp add: canonical_def list_all_iff scrub_task_def filter_map o_def)
  have fe: "filter (\<lambda>e. e_from e \<noteq> [] \<and> e_to e \<noteq> []) (map scrub_edge (workflow_edges out))
             = map scrub_edge (workflow_edges out)"
    using assms by (simp add: canonical_def list_all_iff scrub_edge_def filter_map o_def)
  show ?thesis
    unfolding normalizeAIOutput_def outputJson_def
    by (simp add: get_prop_def toArray_def str_or_empty_def nullish_def t e ft fe
        scrub_output_def del: map_map)
qed

lemma scrub_output_id: "no_empty_optional out \<Longrightarrow> scrub_output out = out"
  by (simp add: no_empty_optional_def scrub_output_def scrub_task_def scrub_edge_def scrub_def
      list_all_iff map_idI)

lemma canonical_scrub: "canonical out \<Longrightarrow> canonical (scrub_output out)"
  by (simp add: canonical_def scrub_output_def scrub_task_def scrub_edge_def list_all_iff)

lemma no_empty_scrub: "no_empty_optional (scrub_output out)"
  by (simp add: no_empty_optional_def scrub_output_def scrub_task_def scrub_edge_def
      list_all_iff scrub_def)

lemma sequenceE_all_Inr:
  "\<forall>x \<in> set xs. \<exists>a. x = Inr a \<Longrightarrow> \<exists>ys. sequenceE xs = Inr ys"
  by (induction xs) auto

lemma toStr_plain: "plain v \<Longrightarrow> \<exists>s. toStr v = Inr s"
proof (induction v rule: toStr.induct)
  case (6 xs)
  have "\<forall>x \<in> set (map (\<lambda>x. if x = JUndefined \<or> x = JNull then Inr [] else toStr x) xs).
          \<exists>a. x = Inr a"
    using 6 by (auto simp: list_all_iff)
  then obtain ss where
    "sequenceE (map (\<lambda>x. if x = JUndefined \<or> x = JNull then Inr [] else toStr x) xs) = Inr ss"
    using sequenceE_all_Inr by blast
  then show ?case by simp
qed simp_all

lemma plain_get_prop: "plain v \<Longrightarrow> plain (get_prop v k)"
  by (cases v) (auto simp: get_prop_def list_all_iff split: option.splits dest!: map_of_SomeD)

lemma plain_toArray: "plain v \<Longrightarrow> x \<in> set (toArray v) \<Longrightarrow> plain x"
  by (cases v) (auto simp: toArray_def list_all_iff)

lemma str_or_empty_plain: "plain v \<Longrightarrow> \<exists>s. str_or_empty v = Inr s"
  using toStr_plain by (auto simp: str_or_empty_def)

lemma str_if_truthy_plain: "plain v \<Longrightarrow> \<exists>s. str_if_truthy v = Inr s"
  using toStr_plain[of v] by (auto simp: str_if_truthy_def)

lemma normTask_plain:
  assumes p: "plain t"
  shows "\<exists>a. normTask t = Inr a"
proof -
  obtain title where "str_or_empty (get_prop t ''title'') = Inr title"
    using str_or_empty_plain plain_get_prop p by blast
  moreover obtain pr where "str_if_truthy (get_prop t ''priority'') = Inr pr"
    using str_if_truthy_plain plain_get_prop p by blast
  moreover obtain ow where "str_if_truthy (get_prop t ''owner'') = Inr ow"
    using str_if_truthy_plain plain_get_prop p by blast
  moreover obtain eta where "str_if_truthy (get_prop t ''eta'') = Inr eta"
    using str_if_truthy_plain plain_get_prop p by blast
  moreover obtain ln where "str_if_truthy (get_prop t ''lane'') = Inr ln"
    using str_if_truthy_plain plain_get_prop p by blast
  moreover obtain ident where "str_if_truthy (get_prop t ''id'') = Inr ident"
    using str_if_truthy_plain plain_get_prop p by blast
  ultimately show ?thesis
    by (simp add: normTask_def)
qed

lemma normEdge_plain:
  assumes p: "plain e"
  shows "\<exists>a. normEdge e = Inr a"
proof -
  obtain f where "str_or_empty (get_prop e ''from'') = Inr f"
    using str_or_empty_plain plain_get_prop p by blast
  moreover obtain t where "str_or_empty (get_prop e ''to'') = Inr t"
    using str_or_empty_plain plain_get_prop p by blast
  moreover obtain k where "str_if_truthy (get_prop e ''kind'') = Inr k"
    using str_if_truthy_plain plain_get_prop p by blast
  ultimately show ?thesis
    by (simp add: normEdge_def)
qed

lemma normalize_returns:
  assumes "plain raw"
  shows "\<exists>out. normalizeAIOutput raw = Inr out"
proof -
  have "\<forall>x \<in> set (map normTask (toArray (get_prop (get_prop raw ''workplan'') ''tasks''))).
          \<exists>a. x = Inr a"
    using assms normTask_plain plain_toArray plain_get_prop
    by (auto simp del: plain.simps) blast
  then obtain ts where
    ts: "sequenceE (map normTask (toArray (get_prop (get_prop raw ''workplan'') ''tasks''))) = Inr ts"
    using sequenceE_all_Inr by blast
  have "\<forall>x \<in> set (map normEdge (toArray (get_prop raw ''workflow_edges''))). \<exists>a. x = Inr a"
    using assms normEdge_plain plain_toArray plain_get_prop
    by (auto simp del: plain.simps) blast
  then obtain es where
    es: "sequenceE (map normEdge (toArray (get_prop raw ''workflow_edges''))) = Inr es"
    using sequenceE_all_Inr by blast
  obtain sm where sm: "str_or_empty (get_prop raw ''summary_md'') = Inr sm"
    using str_or_empty_plain plain_get_prop assms by blast
  show ?thesis
    by (simp add: normalizeAIOutput_def ts es sm)
qed

lemma starts_with_iff: "starts_with s w \<longleftrightarrow> (\<exists>post. s = w @ post)"
  by (induction s w rule: starts_with.induct) auto

lemma word_at_iff:
  assumes "w \<noteq> []" and "is_word (hd w)" and "is_word (last w)"
  shows "word_at w prev s \<longleftrightarrow>
    (\<exists>post. s = w @ post \<and> \<not> opt_word prev \<and> (post = [] \<or> \<not> is_word (hd post)))"
proof -
  have front: "word_boundary prev (w @ post) = (\<not> opt_word prev)" for post
    using assms(1,2) by (cases w) (simp_all add: word_boundary_def opt_word_def)
  have tail_b: "word_boundary (Some (last w)) post = (post = [] \<or> \<not> is_word (hd post))" for post
    using assms(3) by (cases post) (simp_all add: word_boundary_def opt_word_def)
  show ?thesis
    unfolding word_at_def starts_with_iff
    using front tail_b by auto
qed

lemma test_word_iff:
  assumes "w \<noteq> []" and "is_word (hd w)" and "is_word (last w)"
  shows "test_word w prev s \<longleftrightarrow>
    (\<exists>pre post. s = pre @ w @ post
       \<and> \<not> opt_word (if pre = [] then prev else Some (last pre))
       \<and> (post = [] \<or> \<not> is_word (hd post)))"
proof (induction s arbitrary: prev)
  case Nil
  then show ?case
    using assms(1) by (simp add: word_at_iff[OF assms])
next
  case (Cons c cs)
  have here: "word_at w prev (c # cs) \<longleftrightarrow>
      (\<exists>post. c # cs = [] @ w @ post \<and> \<not> opt_word prev \<and> (post = [] \<or> \<not> is_word (hd post)))"
    by (simp add: word_at_iff[OF assms])
  have later: "test_word w (Some c) cs \<longleftrightarrow>
      (\<exists>pre post. c # cs = (c # pre) @ w @ post
         \<and> \<not> opt_word (Some (last (c # pre)))
         \<and> (post = [] \<or> \<not> is_word (hd post)))"
    by (simp add: Cons.IH[of "Some c"])
  show ?case
  proof
    assume "test_word w prev (c # cs)"
    then consider "word_at w prev (c # cs)" | "test_word w (Some c) cs"
      by auto
    then show "\<exists>pre post. c # cs = pre @ w @ post
       \<and> \<not> opt_word (if pre = [] then prev else Some (last pre))
       \<and> (post = [] \<or> \<not> is_word (hd post))"
    proof cases
      case 1
      then obtain post where "c # cs = [] @ w @ post" "\<not> opt_word prev"
          "post = [] \<or> \<not> is_word (hd post)"
        using iffD1[OF here] by blast
      then show ?thesis
        by (intro exI[of _ "[]"] exI[of _ post]) simp
    next
      case 2
      then obtain pre post where "c # cs = (c # pre) @ w @ post"
          "\<not> opt_word (Some (last (c # pre)))" "post = [] \<or> \<not> is_word (hd post)"
        using iffD1[OF later] by blast
      then show ?thesis
        by (intro exI[of _ "c # pre"] exI[of _ post]) simp
    qed
  next
    assume "\<exists>pre post. c # cs = pre @ w @ post
       \<and> \<not> opt_word (if pre = [] then prev else Some (last pre))
       \<and> (post = [] \<or> \<not> is_word (hd post))"
    then obtain pre post where p: "c # cs = pre @ w @ post"
        "\<not> opt_word (if pre = [] then prev else Some (last pre))"
        "post = [] \<or> \<not> is_word (hd post)"
      by blast
    show "test_word w prev (c # cs)"
    proof (cases pre)
      case Nil
      then have "c # cs = [] @ w @ post" and "\<not> opt_word prev"
        using p(1,2) by simp_all
      then have "\<exists>post. c # cs = [] @ w @ post \<and> \<not> opt_word prev
          \<and> (post = [] \<or> \<not> is_word (hd post))"
        using p(3) by blast
      then have "word_at w prev (c # cs)"
        by (rule iffD2[OF here])
      then show ?thesis by simp
    next
      case (Cons a pre')
      then have "c # cs = (c # pre') @ w @ post" and "\<not> opt_word (Some (last (c # pre')))"
        using p(1,2) by simp_all
      then have "\<exists>pre post. c # cs = (c # pre) @ w @ post
          \<and> \<not> opt_word (Some (last (c # pre)))
          \<and> (post = [] \<or> \<not> is_word (hd post))"
        using p(3) by blast
      then have "test_word w (Some c) cs"
        by (rule iffD2[OF later])
      then show ?thesis by simp
    qed
  qed
qed

lemma holds_word_iff:
  assumes "w \<noteq> []" and "is_word (hd w)" and "is_word (last w)"
  shows "test_word w None s \<longleftrightarrow> holds_word w s"
proof -
  have "\<not> opt_word (if pre = [] then None else Some (last pre))
          \<longleftrightarrow> (pre = [] \<or> \<not> is_word (last pre))" for pre :: string
    by (simp add: opt_word_def)
  then show ?thesis
    unfolding test_word_iff[OF assms] holds_word_def by simp
qed

lemma test_words_iff:
  assumes "list_all (\<lambda>w. w \<noteq> [] \<and> is_word (hd w) \<and> is_word (last w)) ws"
  shows "test_words ws s \<longleftrightarrow> (\<exists>w \<in> set ws. holds_word w s)"
  using assms by (auto simp: test_words_def list_ex_iff list_all_iff holds_word_iff)

lemma geminiPrio_rule:
  "geminiPrio p =
     (if prioTxt p = ''0''
         \<or> (\<exists>w \<in> set [''p0'', ''critical'', ''blocker'', ''must'']. holds_word w (prioTxt p)) then 0
      else if prioTxt p = ''1''
         \<or> (\<exists>w \<in> set [''p1'', ''important'', ''high'']. holds_word w (prioTxt p)) then 1
      else 2)"
proof -
  have w0: "list_all (\<lambda>w. w \<noteq> [] \<and> is_word (hd w) \<and> is_word (last w))
              [''p0'', ''critical'', ''blocker'', ''must'']"
    by code_simp
  have w1: "list_all (\<lambda>w. w \<noteq> [] \<and> is_word (hd w) \<and> is_word (last w))
              [''p1'', ''important'', ''high'']"
    by code_simp
  show ?thesis
    unfolding geminiPrio_def Let_def test_words_iff[OF w0] test_words_iff[OF w1] by (rule refl)
qed

lemma geminiTask_prio:
  "geminiTask rnd (i, t) = Inr d \<Longrightarrow> dt_prio d = geminiPrio (g_priority t)"
  by (auto simp: geminiTask_def bindE_Inr_iff)

lemma geminiTasks_prio_from:
  "sequenceE (map (geminiTask rnd) (enumerate n ts)) = Inr ds \<Longrightarrow>
     map dt_prio ds = map (\<lambda>t. geminiPrio (g_priority t)) ts"
proof (induction ts arbitrary: n ds)
  case Nil
  then show ?case by simp
next
  case (Cons t ts)
  from Cons.prems obtain d ds' where d: "geminiTask rnd (n, t) = Inr d"
      "sequenceE (map (geminiTask rnd) (enumerate (Suc n) ts)) = Inr ds'" "ds = d # ds'"
    by (auto split: sum.splits)
  show ?case
    using geminiTask_prio[OF d(1)] Cons.IH[OF d(2)] d(3) by simp
qed

lemma geminiTasks_prio:
  "geminiTasks rnd ts = Inr ds \<Longrightarrow> map dt_prio ds = map (\<lambda>t. geminiPrio (g_priority t)) ts"
  unfolding geminiTasks_def by (rule geminiTasks_prio_from)

lemma geminiTasks_returns_from:
  "\<exists>ds. sequenceE (map (geminiTask (Some uuid)) (enumerate n ts)) = Inr ds"
proof (induction ts arbitrary: n)
  case Nil
  then show ?case by simp
next
  case (Cons t ts)
  have "\<exists>d. geminiTask (Some uuid) (n, t) = Inr d"
    by (simp add: geminiTask_def)
  then obtain d where "geminiTask (Some uuid) (n, t) = Inr d"
    by blast
  moreover obtain ds where "sequenceE (map (geminiTask (Some uuid)) (enumerate (Suc n) ts)) = Inr ds"
    using Cons.IH by blast
  ultimately show ?case by simp
qed

lemma geminiTasks_returns: "\<exists>ds. geminiTasks (Some uuid) ts = Inr ds"
  unfolding geminiTasks_def by (rule geminiTasks_returns_from)

lemma normalize_mixed: "normalizeAIOutput raw_mixed = Inr out_mixed"
  by code_simp

text \<open>
  C4: for every raw input, every task of the output that the normalizer returns has a
  non-empty title equal to its own trim, and every workflow edge has non-empty \<open>from\<close> and
  \<open>to\<close> fields equal to their own trims.  The normalizer returns on every raw input no
  object of which has an own property \<open>toString\<close>.
\<close>

theorem C4_titles_and_ends_trimmed:
  "(normalizeAIOutput raw = Inr out \<longrightarrow>
      (\<forall>t \<in> set (wp_tasks (workplan out)). t_title t \<noteq> [] \<and> trim (t_title t) = t_title t)
      \<and> (\<forall>e \<in> set (workflow_edges out). e_from e \<noteq> [] \<and> trim (e_from e) = e_from e
              \<and> e_to e \<noteq> [] \<and> trim (e_to e) = e_to e))
   \<and> (plain raw \<longrightarrow> (\<exists>res. normalizeAIOutput raw = Inr res))"
proof (intro conjI impI)
  assume "normalizeAIOutput raw = Inr out"
  then have c: "canonical out"
    by (rule normalize_canonical)
  show "\<forall>t \<in> set (wp_tasks (workplan out)). t_title t \<noteq> [] \<and> trim (t_title t) = t_title t"
    using c by (simp add: canonical_def list_all_iff)
  show "\<forall>e \<in> set (workflow_edges out). e_from e \<noteq> [] \<and> trim (e_from e) = e_from e
              \<and> e_to e \<noteq> [] \<and> trim (e_to e) = e_to e"
    using c by (simp add: canonical_def list_all_iff)
next
  assume "plain raw"
  then show "\<exists>res. normalizeAIOutput raw = Inr res"
    by (rule normalize_returns)
qed

theorem C4_titles_and_ends_trimmed_witness:
  "normalizeAIOutput raw_mixed = Inr out_mixed
   \<and> map t_title (wp_tasks (workplan out_mixed)) = [''A'', ''B'']
   \<and> list_all (\<lambda>t. t_title t \<noteq> [] \<and> trim (t_title t) = t_title t) (wp_tasks (workplan out_mixed))
   \<and> list_all (\<lambda>e. e_from e \<noteq> [] \<and> trim (e_from e) = e_from e
                    \<and> e_to e \<noteq> [] \<and> trim (e_to e) = e_to e) (workflow_edges out_mixed)"
proof -
  have "map t_title (wp_tasks (workplan out_mixed)) = [''A'', ''B'']"
    by (simp add: out_mixed_def)
  moreover have "plain raw_mixed"
    by code_simp
  ultimately show ?thesis
    using normalize_mixed C4_titles_and_ends_trimmed[of raw_mixed out_mixed]
    by (simp add: list_all_iff)
qed

text \<open>
  C9, as stated: normalizing twice gives what normalizing once gives, for every raw
  input.  A task whose priority is the empty array has the priority \<open>""\<close> after one pass
  (the array is truthy and prints as the empty string) and no priority after two.
\<close>

theorem C9_idempotence_counterexample:
  "renormalize raw_array_priority \<noteq> normalizeAIOutput raw_array_priority"
  by code_simp

text \<open>
  C9, amended: whenever the normalizer returns an output none of whose optional fields
  (priority, owner, eta, lane, id of a task, kind of an edge) is the empty string,
  normalizing that output again yields the identical output; and in every case a second
  pass only turns empty optional fields into absent ones, after which further passes
  change nothing.
\<close>

theorem C9_normalize_idempotent:
  assumes "normalizeAIOutput raw = Inr out"
  shows "(no_empty_optional out \<longrightarrow> renormalize raw = normalizeAIOutput raw)
    \<and> renormalize raw = Inr (scrub_output out)
    \<and> normalizeAIOutput (outputJson (scrub_output out)) = Inr (scrub_output out)"
proof -
  have c: "canonical out"
    using assms by (rule normalize_canonical)
  have r: "renormalize raw = Inr (scrub_output out)"
    using assms c by (simp add: renormalize_def normalize_outputJson)
  have "normalizeAIOutput (outputJson (scrub_output out)) = Inr (scrub_output (scrub_output out))"
    using c by (simp add: normalize_outputJson canonical_scrub)
  then have "normalizeAIOutput (outputJson (scrub_output out)) = Inr (scrub_output out)"
    by (simp add: scrub_output_id no_empty_scrub)
  then show ?thesis
    using r assms by (simp add: scrub_output_id)
qed

theorem C9_normalize_idempotent_witness:
  "no_empty_optional out_mixed \<and> renormalize raw_mixed = normalizeAIOutput raw_mixed"
proof -
  have "no_empty_optional out_mixed"
    by code_simp
  then show ?thesis
    using C9_normalize_idempotent[OF normalize_mixed] by simp
qed

text \<open>
  C3, as stated: no output of the normalizer carries a priority outside \<open>P0\<close>, \<open>P1\<close>,
  \<open>P2\<close>.  The normalizer copies the priority as text; \<open>critical\<close> stays \<open>critical\<close> and an
  absent priority stays absent.
\<close>

theorem C3_closed_set_counterexample:
  "normalizeAIOutput raw_mixed = Inr out_mixed \<and> \<not> priorities_closed out_mixed"
proof -
  have "\<not> priorities_closed out_mixed"
    by code_simp
  then show ?thesis
    using normalize_mixed by simp
qed

text \<open>
  C3, amended: the normalizer keeps a task priority as the text of the raw field when
  that field is truthy and leaves it absent otherwise; the mapping into the closed set
  is made where the tasks of an AI output are shown (\<open>geminiTasks\<close>), with values 0, 1, 2.
  There the priority is read as text in lower case (an absent one as \<open>2\<close>, a number as
  its decimal text); the text \<open>0\<close> or a text holding the word \<open>p0\<close>, \<open>critical\<close>,
  \<open>blocker\<close> or \<open>must\<close> gives 0; otherwise the text \<open>1\<close> or a text holding the word \<open>p1\<close>,
  \<open>important\<close> or \<open>high\<close> gives 1; everything else gives 2.  Every task that \<open>geminiTasks\<close>
  returns has the priority so computed from its source task, and \<open>geminiTasks\<close> returns
  wherever \<open>crypto.randomUUID\<close> is available.
\<close>

theorem C3_priority_mapping:
  "(normTask t = Inr a \<longrightarrow>
      (truthy (get_prop t ''priority'') \<longrightarrow> toStr (get_prop t ''priority'') = Inr (or_empty (t_priority a))
          \<and> t_priority a \<noteq> None)
      \<and> (\<not> truthy (get_prop t ''priority'') \<longrightarrow> t_priority a = None))
   \<and> geminiPrio p =
       (if prioTxt p = ''0''
           \<or> (\<exists>w \<in> set [''p0'', ''critical'', ''blocker'', ''must'']. holds_word w (prioTxt p)) then 0
        else if prioTxt p = ''1''
           \<or> (\<exists>w \<in> set [''p1'', ''important'', ''high'']. holds_word w (prioTxt p)) then 1
        else 2)
   \<and> prioTxt PrioAbsent = ''2''
   \<and> prioTxt (PrioString s) = toLowerCase s
   \<and> prioTxt (PrioNumber n) = toLowerCase (show_int n)
   \<and> geminiPrio PrioAbsent = 2
   \<and> (geminiTasks rnd ts = Inr ds \<longrightarrow> map dt_prio ds = map (\<lambda>t. geminiPrio (g_priority t)) ts)
   \<and> (rnd = Some uuid \<longrightarrow> (\<exists>res. geminiTasks rnd ts = Inr res))"
proof -
  have a: "normTask t = Inr a \<longrightarrow>
      (truthy (get_prop t ''priority'') \<longrightarrow> toStr (get_prop t ''priority'') = Inr (or_empty (t_priority a))
          \<and> t_priority a \<noteq> None)
      \<and> (\<not> truthy (get_prop t ''priority'') \<longrightarrow> t_priority a = None)"
  proof
    assume "normTask t = Inr a"
    then have "str_if_truthy (get_prop t ''priority'') = Inr (t_priority a)"
      by (rule normTask_priority)
    then show "(truthy (get_prop t ''priority'') \<longrightarrow>
          toStr (get_prop t ''priority'') = Inr (or_empty (t_priority a)) \<and> t_priority a \<noteq> None)
      \<and> (\<not> truthy (get_prop t ''priority'') \<longrightarrow> t_priority a = None)"
      by (cases "t_priority a")
        (auto simp: str_if_truthy_def bindE_Inr_iff or_empty_def split: if_splits)
  qed
  have b: "geminiPrio p =
       (if prioTxt p = ''0''
           \<or> (\<exists>w \<in> set [''p0'', ''critical'', ''blocker'', ''must'']. holds_word w (prioTxt p)) then 0
        else if prioTxt p = ''1''
           \<or> (\<exists>w \<in> set [''p1'', ''important'', ''high'']. holds_word w (prioTxt p)) then 1
        else 2)"
    by (rule geminiPrio_rule)
  have c: "prioTxt PrioAbsent = ''2'' \<and> prioTxt (PrioString s) = toLowerCase s
      \<and> prioTxt (PrioNumber n) = toLowerCase (show_int n)"
    by (simp add: prioTxt_def toLowerCase_def toLowerCase_char_def code_def)
  have d: "geminiPrio PrioAbsent = 2"
    by code_simp
  have e: "geminiTasks rnd ts = Inr ds \<longrightarrow> map dt_prio ds = map (\<lambda>t. geminiPrio (g_priority t)) ts"
    using geminiTasks_prio by blast
  have f: "rnd = Some uuid \<longrightarrow> (\<exists>res. geminiTasks rnd ts = Inr res)"
    using geminiTasks_returns by blast
  show ?thesis
    using a b c d e f by blast
qed

theorem C3_priority_mapping_witness:
  "normTask (JObj [(''title'', JStr ''A''), (''priority'', JStr ''critical'')])
     = Inr \<lparr>t_title = ''A'', t_priority = Some ''critical'', t_owner = None, t_eta = None,
            t_lane = None, t_id = None\<rparr>
   \<and> toStr (get_prop (JObj [(''title'', JStr ''A''), (''priority'', JStr ''critical'')]) ''priority'')
       = Inr ''critical''
   \<and> holds_word ''must'' (prioTxt (PrioString ''Must-have''))
   \<and> geminiPrio (PrioString ''Must-have'') = 0
   \<and> map dt_prio (projr (geminiTasks (Some sample_uuid)
        [\<lparr>g_id = None, g_title = ''A'', g_priority = PrioString ''High priority'', g_lane = None\<rparr>,
         \<lparr>g_id = Some ''t2'', g_title = ''B'', g_priority = PrioString ''mustard'', g_lane = None\<rparr>,
         \<lparr>g_id = None, g_title = ''C'', g_priority = PrioNumber 0, g_lane = None\<rparr>]))
       = [1, 2, 0]"
proof -
  let ?t = "JObj [(''title'', JStr ''A''), (''priority'', JStr ''critical'')]"
  let ?a = "\<lparr>t_title = ''A'', t_priority = Some ''critical'', t_owner = None, t_eta = None,
            t_lane = None, t_id = None\<rparr>"
  let ?ts = "[\<lparr>g_id = None, g_title = ''A'', g_priority = PrioString ''High priority'', g_lane = None\<rparr>,
         \<lparr>g_id = Some ''t2'', g_title = ''B'', g_priority = PrioString ''mustard'', g_lane = None\<rparr>,
         \<lparr>g_id = None, g_title = ''C'', g_priority = PrioNumber 0, g_lane = None\<rparr>]"
  note inst = C3_priority_mapping[of ?t ?a "PrioString ''Must-have''" "''Must-have''" 0
      "Some sample_uuid" ?ts _ sample_uuid]
  have n: "normTask ?t = Inr ?a"
    by code_simp
  have tr: "truthy (get_prop ?t ''priority'')"
    by code_simp
  have s: "toStr (get_prop ?t ''priority'') = Inr (or_empty (t_priority ?a))"
    using inst n tr by blast
  have lower: "prioTxt (PrioString ''Must-have'') = ''must-have''"
    by code_simp
  have "''must-have'' = [] @ ''must'' @ ''-have''"
    by simp
  moreover have "\<not> is_word (hd ''-have'')"
    by code_simp
  ultimately have h: "holds_word ''must'' (prioTxt (PrioString ''Must-have''))"
    unfolding holds_word_def lower by blast
  then have "\<exists>w \<in> set [''p0'', ''critical'', ''blocker'', ''must''].
      holds_word w (prioTxt (PrioString ''Must-have''))"
    by simp
  then have g: "geminiPrio (PrioString ''Must-have'') = 0"
    using inst by presburger
  obtain ds where ds: "geminiTasks (Some sample_uuid) ?ts = Inr ds"
    using inst by blast
  then have "map dt_prio ds = map (\<lambda>t. geminiPrio (g_priority t)) ?ts"
    using C3_priority_mapping[of ?t ?a "PrioString ''Must-have''" "''Must-have''" 0
      "Some sample_uuid" ?ts ds sample_uuid] by blast
  moreover have "map (\<lambda>t. geminiPrio (g_priority t)) ?ts = [1, 2, 0]"
    by code_simp
  ultimately have "map dt_prio (projr (geminiTasks (Some sample_uuid) ?ts)) = [1, 2, 0]"
    using ds by simp
  then show ?thesis
    using n s h g by (simp add: or_empty_def)
qed

section \<open>Properties of the board store and the wall applier\<close>

lemma addNote_edges [simp]: "edges_ls (snd (addNote uid b note st)) = edges_ls st"
  by (simp add: addNote_def dispatch_def Let_def)

lemma placeNote_edges [simp]:
  "edges_ls (snd (placeNote uid b title detail color loc sz b2w ag st)) = edges_ls st"
  by (simp add: placeNote_def Let_def)

lemma placeNote_note:
  "\<exists>n. notes_ls (snd (placeNote uid b title detail color loc sz b2w (Some True) st)) b
            = notes_ls st b @ [n]
       \<and> n_id n = fst (placeNote uid b title detail color loc sz b2w (Some True) st)
       \<and> n_text n = (if truthy_str detail then title @ [CHR 0x0A] @ or_empty detail else title)
       \<and> position (n_pose n) = b2w loc \<and> applied_note n"
  by (simp add: placeNote_def addNote_def dispatch_def Let_def NoteDoc.extend_def
      StoredNote.fields_def applied_note_def)

lemma place_tasks_edges [simp]:
  "edges_ls (snd (place_tasks uid b b2w lay color lx r ts ms)) = edges_ls (snd ms)"
  by (induction ts arbitrary: r ms) (simp_all add: Let_def)

lemma place_lanes_edges [simp]:
  "edges_ls (snd (place_lanes uid b b2w lay colors byLane lx lanes ms)) = edges_ls (snd ms)"
  by (induction lanes arbitrary: lx ms) (simp_all add: Let_def)

lemma ran_upd_subset: "ran (m(k \<mapsto> v)) \<subseteq> insert v (ran m)"
  by (auto simp: ran_def split: if_splits)

lemma planned_rows_Cons:
  "planned_rows lay lx r (t # ts) = (task_text t, row_local lay lx r) # planned_rows lay lx (Suc r) ts"
  by (simp add: planned_rows_def)

lemma planned_lanes_Cons:
  "planned_lanes lay byLane lx (lane # rest) =
     (HEADER_GLYPH @ '' '' @ lane, header_local lay lx)
       # planned_rows lay lx 0 (byLane lane) @ planned_lanes lay byLane (Suc lx) rest"
  by (simp add: planned_lanes_def)

lemma place_tasks_dom:
  "dom (fst (place_tasks uid b b2w lay color lx r ts ms)) = dom (fst ms) \<union> plan_task_key ` set ts"
  by (induction ts arbitrary: r ms) (auto simp: Let_def plan_task_key_def)

lemma place_lanes_dom:
  "dom (fst (place_lanes uid b b2w lay colors byLane lx lanes ms))
     = dom (fst ms) \<union> plan_task_key ` set (concat (map byLane lanes))"
  by (induction lanes arbitrary: lx ms) (auto simp: Let_def place_tasks_dom)

lemma place_tasks_notes:
  "\<exists>new. notes_ls (snd (place_tasks uid b b2w lay color lx r ts ms)) b = notes_ls (snd ms) b @ new
     \<and> map (\<lambda>n. (n_text n, position (n_pose n))) new
         = map (\<lambda>(tx, l). (tx, b2w l)) (planned_rows lay lx r ts)
     \<and> (\<forall>n \<in> set new. applied_note n)
     \<and> (\<forall>k v. fst (place_tasks uid b b2w lay color lx r ts ms) k = Some v \<longrightarrow>
            fst ms k = Some v
          \<or> (\<exists>n \<in> set new. n_id n = v
                \<and> (\<exists>t \<in> set ts. plan_task_key t = k \<and> n_text n = task_text t)))"
proof (induction ts arbitrary: r ms)
  case Nil
  then show ?case by (simp add: planned_rows_def)
next
  case (Cons t ts)
  let ?title = "summarizeTaskTitle (pt_title t) (pt_priority t) (pt_owner t) (pt_eta t)"
  let ?placed = "placeNote uid b ?title (pt_description t) color (row_local lay lx r) (noteSize lay)
                   b2w (Some True) (snd ms)"
  let ?ms1 = "((fst ms)(plan_task_key t \<mapsto> fst ?placed), snd ?placed)"
  have step: "place_tasks uid b b2w lay color lx r (t # ts) ms
                = place_tasks uid b b2w lay color lx (Suc r) ts ?ms1"
    by (simp add: Let_def row_local_def plan_task_key_def)
  obtain n where n: "notes_ls (snd ?placed) b = notes_ls (snd ms) b @ [n]"
      "n_id n = fst ?placed" "n_text n = task_text t"
      "position (n_pose n) = b2w (row_local lay lx r)" "applied_note n"
    using placeNote_note[of uid b ?title "pt_description t" color "row_local lay lx r"
        "noteSize lay" b2w "snd ms"]
    by (auto simp: task_text_def Let_def)
  obtain new where new:
      "notes_ls (snd (place_tasks uid b b2w lay color lx (Suc r) ts ?ms1)) b
         = notes_ls (snd ?ms1) b @ new"
      "map (\<lambda>n. (n_text n, position (n_pose n))) new
         = map (\<lambda>(tx, l). (tx, b2w l)) (planned_rows lay lx (Suc r) ts)"
      "\<forall>n \<in> set new. applied_note n"
      "\<forall>k v. fst (place_tasks uid b b2w lay color lx (Suc r) ts ?ms1) k = Some v \<longrightarrow>
            fst ?ms1 k = Some v
          \<or> (\<exists>n \<in> set new. n_id n = v
                \<and> (\<exists>t \<in> set ts. plan_task_key t = k \<and> n_text n = task_text t))"
    using Cons.IH[of "Suc r" ?ms1] by blast
  have a: "notes_ls (snd (place_tasks uid b b2w lay color lx r (t # ts) ms)) b
        = notes_ls (snd ms) b @ (n # new)"
    using n(1) new(1) by (simp only: step) simp
  have b: "map (\<lambda>n. (n_text n, position (n_pose n))) (n # new)
         = map (\<lambda>(tx, l). (tx, b2w l)) (planned_rows lay lx r (t # ts))"
    using n(3,4) new(2) by (simp add: planned_rows_Cons)
  have c: "\<forall>n \<in> set (n # new). applied_note n"
    using n(5) new(3) by simp
  have first: "\<forall>k v. fst ?ms1 k = Some v \<longrightarrow>
      fst ms k = Some v \<or> (n_id n = v \<and> plan_task_key t = k)"
    using n(2) by (simp split: if_splits)
  have d: "\<forall>k v. fst (place_tasks uid b b2w lay color lx r (t # ts) ms) k = Some v \<longrightarrow>
            fst ms k = Some v
          \<or> (\<exists>n \<in> set (n # new). n_id n = v
                \<and> (\<exists>t \<in> set (t # ts). plan_task_key t = k \<and> n_text n = task_text t))"
  proof (intro allI impI)
    fix k v
    assume "fst (place_tasks uid b b2w lay color lx r (t # ts) ms) k = Some v"
    then have "fst (place_tasks uid b b2w lay color lx (Suc r) ts ?ms1) k = Some v"
      by (simp only: step)
    then consider "fst ?ms1 k = Some v"
      | "\<exists>n \<in> set new. n_id n = v
                \<and> (\<exists>t \<in> set ts. plan_task_key t = k \<and> n_text n = task_text t)"
      using new(4) by blast
    then show "fst ms k = Some v
          \<or> (\<exists>n \<in> set (n # new). n_id n = v
                \<and> (\<exists>t \<in> set (t # ts). plan_task_key t = k \<and> n_text n = task_text t))"
    proof cases
      case 1
      then have "fst ms k = Some v \<or> (n_id n = v \<and> plan_task_key t = k)"
        using first by blast
      then show ?thesis
        using n(3) by auto
    next
      case 2
      then show ?thesis by auto
    qed
  qed
  show ?case
    using a b c d by blast
qed

lemma place_lanes_notes:
  "\<exists>new. notes_ls (snd (place_lanes uid b b2w lay colors byLane lx lanes ms)) b
            = notes_ls (snd ms) b @ new
     \<and> map (\<lambda>n. (n_text n, position (n_pose n))) new
         = map (\<lambda>(tx, l). (tx, b2w l)) (planned_lanes lay byLane lx lanes)
     \<and> (\<forall>n \<in> set new. applied_note n)
     \<and> (\<forall>k v. fst (place_lanes uid b b2w lay colors byLane lx lanes ms) k = Some v \<longrightarrow>
            fst ms k = Some v
          \<or> (\<exists>n \<in> set new. n_id n = v
                \<and> (\<exists>t \<in> set (concat (map byLane lanes)).
                       plan_task_key t = k \<and> n_text n = task_text t)))"
proof (induction lanes arbitrary: lx ms)
  case Nil
  then show ?case by (simp add: planned_lanes_def)
next
  case (Cons lane rest)
  let ?header = "placeNote uid b (HEADER_GLYPH @ '' '' @ lane) None ''#111827''
                   (header_local lay lx) (noteSize lay * 0.75) b2w (Some True) (snd ms)"
  let ?ms1 = "(fst ms, snd ?header)"
  let ?ms2 = "place_tasks uid b b2w lay (or_empty (colors lane)) lx 0 (byLane lane) ?ms1"
  have step: "place_lanes uid b b2w lay colors byLane lx (lane # rest) ms
                = place_lanes uid b b2w lay colors byLane (Suc lx) rest ?ms2"
    by (simp add: Let_def header_local_def)
  obtain n where n: "notes_ls (snd ?header) b = notes_ls (snd ms) b @ [n]"
      "n_text n = HEADER_GLYPH @ '' '' @ lane"
      "position (n_pose n) = b2w (header_local lay lx)" "applied_note n"
    using placeNote_note[of uid b "HEADER_GLYPH @ '' '' @ lane" None "''#111827''"
        "header_local lay lx" "noteSize lay * 0.75" b2w "snd ms"]
    by (auto simp: truthy_str_def)
  obtain new1 where new1: "notes_ls (snd ?ms2) b = notes_ls (snd ?ms1) b @ new1"
      "map (\<lambda>n. (n_text n, position (n_pose n))) new1
         = map (\<lambda>(tx, l). (tx, b2w l)) (planned_rows lay lx 0 (byLane lane))"
      "\<forall>n \<in> set new1. applied_note n"
      "\<forall>k v. fst ?ms2 k = Some v \<longrightarrow>
            fst ?ms1 k = Some v
          \<or> (\<exists>n \<in> set new1. n_id n = v
                \<and> (\<exists>t \<in> set (byLane lane). plan_task_key t = k \<and> n_text n = task_text t))"
    using place_tasks_notes[of uid b b2w lay "or_empty (colors lane)" lx 0 "byLane lane" ?ms1]
    by blast
  obtain new2 where new2:
      "notes_ls (snd (place_lanes uid b b2w lay colors byLane (Suc lx) rest ?ms2)) b
         = notes_ls (snd ?ms2) b @ new2"
      "map (\<lambda>n. (n_text n, position (n_pose n))) new2
         = map (\<lambda>(tx, l). (tx, b2w l)) (planned_lanes lay byLane (Suc lx) rest)"
      "\<forall>n \<in> set new2. applied_note n"
      "\<forall>k v. fst (place_lanes uid b b2w lay colors byLane (Suc lx) rest ?ms2) k = Some v \<longrightarrow>
            fst ?ms2 k = Some v
          \<or> (\<exists>n \<in> set new2. n_id n = v
                \<and> (\<exists>t \<in> set (concat (map byLane rest)).
                       plan_task_key t = k \<and> n_text n = task_text t))"
    using Cons.IH[of "Suc lx" ?ms2] by blast
  have a: "notes_ls (snd (place_lanes uid b b2w lay colors byLane lx (lane # rest) ms)) b
        = notes_ls (snd ms) b @ (n # new1 @ new2)"
    using n(1) new1(1) new2(1) by (simp only: step) simp
  have b: "map (\<lambda>n. (n_text n, position (n_pose n))) (n # new1 @ new2)
         = map (\<lambda>(tx, l). (tx, b2w l)) (planned_lanes lay byLane lx (lane # rest))"
    using n(2,3) new1(2) new2(2) by (simp add: planned_lanes_Cons)
  have c: "\<forall>n \<in> set (n # new1 @ new2). applied_note n"
    using n(4) new1(3) new2(3) by auto
  have d: "\<forall>k v. fst (place_lanes uid b b2w lay colors byLane lx (lane # rest) ms) k = Some v \<longrightarrow>
            fst ms k = Some v
          \<or> (\<exists>n \<in> set (n # new1 @ new2). n_id n = v
                \<and> (\<exists>t \<in> set (concat (map byLane (lane # rest))).
                       plan_task_key t = k \<and> n_text n = task_text t))"
  proof (intro allI impI)
    fix k v
    assume "fst (place_lanes uid b b2w lay colors byLane lx (lane # rest) ms) k = Some v"
    then have "fst (place_lanes uid b b2w lay colors byLane (Suc lx) rest ?ms2) k = Some v"
      by (simp only: step)
    then consider "fst ?ms2 k = Some v"
      | "\<exists>n \<in> set new2. n_id n = v
                \<and> (\<exists>t \<in> set (concat (map byLane rest)).
                       plan_task_key t = k \<and> n_text n = task_text t)"
      using new2(4) by blast
    then show "fst ms k = Some v
          \<or> (\<exists>n \<in> set (n # new1 @ new2). n_id n = v
                \<and> (\<exists>t \<in> set (concat (map byLane (lane # rest))).
                       plan_task_key t = k \<and> n_text n = task_text t))"
    proof cases
      case 1
      then have "fst ms k = Some v
          \<or> (\<exists>n \<in> set new1. n_id n = v
                \<and> (\<exists>t \<in> set (byLane lane). plan_task_key t = k \<and> n_text n = task_text t))"
        using new1(4) by simp
      then show ?thesis by auto
    next
      case 2
      then show ?thesis by auto
    qed
  qed
  show ?case
    using a b c d by blast
qed

lemma addEdge_notes [simp]: "notes_ls (snd (addEdge uid b f t k x st)) = notes_ls st"
  by (simp add: addEdge_def dispatch_def Let_def)

lemma wire_edges_notes [simp]: "notes_ls (wire_edges uid b m es st) = notes_ls st"
  by (induction es arbitrary: st) simp_all

lemma truthy_str_Some: "truthy_str x \<Longrightarrow> x = Some (or_empty x)"
  by (cases x) (simp_all add: truthy_str_def or_empty_def)

lemma wires_distinct:
  "wires m e \<Longrightarrow> or_empty (resolve_key m (pe_from e)) \<noteq> or_empty (resolve_key m (pe_to e))"
  using truthy_str_Some unfolding wires_def by metis

lemma resolve_in_ran: "truthy_str (resolve_key m k) \<Longrightarrow> or_empty (resolve_key m k) \<in> ran m"
  by (auto simp: resolve_key_def or_str_def truthy_str_def or_empty_def ran_def
      split: option.splits if_splits)

lemma addEdge_edges:
  "edges_ls (snd (addEdge uid b f t k x st)) b = edges_ls st b @
     [\<lparr>se_id = uid (uid_count st), se_from = f, se_to = t,
       se_kind = (case k of None \<Rightarrow> KindName ''follows'' | Some v \<Rightarrow> v),
       se_aiGenerated = (case x of None \<Rightarrow> None | Some v \<Rightarrow> x_aiGenerated v),
       se_fromAI = (case x of None \<Rightarrow> None | Some v \<Rightarrow> x_fromAI v)\<rparr>]"
  by (simp add: addEdge_def dispatch_def Let_def)

lemma wire_edges_edges:
  "\<exists>new. edges_ls (wire_edges uid b m es st) b = edges_ls st b @ new
     \<and> map (\<lambda>e. (se_from e, se_to e)) new = map (wired_ends m) (filter (wires m) es)
     \<and> (\<forall>e \<in> set new. se_from e \<noteq> se_to e \<and> se_from e \<in> ran m \<and> se_to e \<in> ran m
            \<and> se_aiGenerated e = None
            \<and> se_kind e = KindObject \<lparr>x_aiGenerated = Some True, x_fromAI = None\<rparr>)"
proof (induction es arbitrary: st)
  case Nil
  then show ?case by simp
next
  case (Cons e es)
  show ?case
  proof (cases "wires m e")
    case False
    then show ?thesis using Cons.IH[of st] by simp
  next
    case True
    let ?f = "or_empty (resolve_key m (pe_from e))"
    let ?t = "or_empty (resolve_key m (pe_to e))"
    let ?k = "Some (KindObject \<lparr>x_aiGenerated = Some True, x_fromAI = None\<rparr>)"
    let ?st1 = "snd (addEdge uid b ?f ?t ?k None st)"
    obtain new where new: "edges_ls (wire_edges uid b m es ?st1) b = edges_ls ?st1 b @ new"
      "map (\<lambda>e. (se_from e, se_to e)) new = map (wired_ends m) (filter (wires m) es)"
      "\<forall>e \<in> set new. se_from e \<noteq> se_to e \<and> se_from e \<in> ran m \<and> se_to e \<in> ran m
            \<and> se_aiGenerated e = None
            \<and> se_kind e = KindObject \<lparr>x_aiGenerated = Some True, x_fromAI = None\<rparr>"
      using Cons.IH[of ?st1] by blast
    let ?edge = "\<lparr>se_id = uid (uid_count st), se_from = ?f, se_to = ?t,
       se_kind = KindObject \<lparr>x_aiGenerated = Some True, x_fromAI = None\<rparr>,
       se_aiGenerated = None, se_fromAI = None\<rparr>"
    have ends: "?f \<in> ran m" "?t \<in> ran m"
      using True resolve_in_ran by (simp_all add: wires_def)
    have "edges_ls (wire_edges uid b m (e # es) st) b = edges_ls st b @ (?edge # new)"
      using True new(1) by (simp add: addEdge_edges)
    moreover have "map (\<lambda>e. (se_from e, se_to e)) (?edge # new)
        = map (wired_ends m) (filter (wires m) (e # es))"
      using True new(2) by (simp add: wired_ends_def)
    moreover have "\<forall>e \<in> set (?edge # new). se_from e \<noteq> se_to e \<and> se_from e \<in> ran m
            \<and> se_to e \<in> ran m \<and> se_aiGenerated e = None
            \<and> se_kind e = KindObject \<lparr>x_aiGenerated = Some True, x_fromAI = None\<rparr>"
      using new(3) wires_distinct[OF True] ends by simp
    ultimately show ?thesis by blast
  qed
qed

lemma wire_edges_skip:
  "\<not> wires m e \<Longrightarrow> wire_edges uid b m (es1 @ e # es2) st = wire_edges uid b m (es1 @ es2) st"
  by (induction es1 arbitrary: st) simp_all

lemma plan_tasks_SomeD:
  "plan_tasks aiOut = Some (p, wp, ts) \<Longrightarrow>
     aiOut = Some p \<and> p_workplan p = Some wp \<and> pw_tasks wp = Some ts \<and> ts \<noteq> []"
  by (auto simp: plan_tasks_def split: option.splits if_splits)

lemma plan_tasks_edges_update:
  "plan_tasks (Some p) = Some (p, wp, ts) \<Longrightarrow>
     plan_tasks (Some (p\<lparr>p_workflow_edges := es\<rparr>)) = Some (p\<lparr>p_workflow_edges := es\<rparr>, wp, ts)"
  by (auto simp: plan_tasks_def split: option.splits if_splits)

lemma apply_failure_keeps_store:
  "fst (applyPlanToWall uid rot b xr aiOut opts st) = Inl e \<Longrightarrow>
     snd (applyPlanToWall uid rot b xr aiOut opts st) = st"
  by (auto simp: applyPlanToWall_def Let_def split: option.splits)

lemma apply_not_started:
  assumes "\<not> (\<exists>p wp ts scene board.
      plan_tasks aiOut = Some (p, wp, ts) \<and> xr = Some scene \<and> board_of scene = Some board)"
  shows "snd (applyPlanToWall uid rot b xr aiOut opts st) = st"
  using assms by (auto simp: applyPlanToWall_def split: option.splits)

lemma apply_wire_edges:
  assumes "plan_tasks aiOut = Some (p, wp, ts)" and "xr = Some scene"
    and "board_of scene = Some board"
  shows "applyPlanToWall uid rot b xr aiOut opts st
    = (Inr (), wire_edges uid b (fst (place_plan uid rot b board wp ts opts st)) (plan_edges p)
                 (snd (place_plan uid rot b board wp ts opts st)))"
  using assms by (simp add: applyPlanToWall_def plan_edges_def Let_def split: option.splits)

lemma place_plan_notes:
  "\<exists>new. notes_ls (snd (place_plan uid rot b board wp ts opts st)) b = notes_ls st b @ new
     \<and> map (\<lambda>n. (n_text n, position (n_pose n))) new
         = map (\<lambda>(tx, l). (tx, vadd (rot l (b_quaternion board)) (b_position board)))
             (planned_notes wp ts opts)
     \<and> (\<forall>n \<in> set new. applied_note n)
     \<and> (\<forall>k v. fst (place_plan uid rot b board wp ts opts st) k = Some v \<longrightarrow>
           (\<exists>n \<in> set new. n_id n = v
              \<and> (\<exists>t \<in> set (kept_tasks wp ts opts).
                     plan_task_key t = k \<and> n_text n = task_text t)))"
proof -
  have b2w: "boardLocalToWorld rot board = (\<lambda>l. vadd (rot l (b_quaternion board)) (b_position board))"
    by (rule ext) (simp add: boardLocalToWorld_def)
  show ?thesis
    using place_lanes_notes[of uid b "boardLocalToWorld rot board" "layout_of opts"
        "assign_colors (given_colors opts) (plan_lanes wp)"
        "build_byLane (plan_lanes wp) (opt_num opts o_maxPerLane 8) ts" 0 "plan_lanes wp"
        "(Map.empty, st)"]
    unfolding place_plan_def Let_def planned_notes_def kept_tasks_def b2w by simp
qed

lemma place_plan_dom:
  "dom (fst (place_plan uid rot b board wp ts opts st)) = plan_task_key ` set (kept_tasks wp ts opts)"
  by (simp add: place_plan_def Let_def kept_tasks_def place_lanes_dom)

lemma apply_success:
  assumes "plan_tasks aiOut = Some (p, wp, ts)" and "xr = Some scene"
    and "board_of scene = Some board"
  shows "\<exists>notes edges.
      notes_ls (snd (applyPlanToWall uid rot b xr aiOut opts st)) b = notes_ls st b @ notes
    \<and> map (\<lambda>n. (n_text n, position (n_pose n))) notes
        = map (\<lambda>(tx, l). (tx, vadd (rot l (b_quaternion board)) (b_position board)))
            (planned_notes wp ts opts)
    \<and> (\<forall>n \<in> set notes. applied_note n)
    \<and> (\<forall>k v. fst (place_plan uid rot b board wp ts opts st) k = Some v \<longrightarrow>
           (\<exists>n \<in> set notes. n_id n = v
              \<and> (\<exists>t \<in> set (kept_tasks wp ts opts).
                     plan_task_key t = k \<and> n_text n = task_text t)))
    \<and> edges_ls (snd (applyPlanToWall uid rot b xr aiOut opts st)) b = edges_ls st b @ edges
    \<and> map (\<lambda>e. (se_from e, se_to e)) edges
        = map (wired_ends (fst (place_plan uid rot b board wp ts opts st)))
            (filter (wires (fst (place_plan uid rot b board wp ts opts st))) (plan_edges p))
    \<and> (\<forall>e \<in> set edges. se_from e \<noteq> se_to e \<and> se_from e \<in> n_id ` set notes
           \<and> se_to e \<in> n_id ` set notes \<and> se_aiGenerated e = None
           \<and> se_kind e = KindObject \<lparr>x_aiGenerated = Some True, x_fromAI = None\<rparr>)"
proof -
  let ?placed = "place_plan uid rot b board wp ts opts st"
  obtain ns where ns: "notes_ls (snd ?placed) b = notes_ls st b @ ns"
      "map (\<lambda>n. (n_text n, position (n_pose n))) ns
        = map (\<lambda>(tx, l). (tx, vadd (rot l (b_quaternion board)) (b_position board)))
            (planned_notes wp ts opts)"
      "\<forall>n \<in> set ns. applied_note n"
      "\<forall>k v. fst ?placed k = Some v \<longrightarrow>
           (\<exists>n \<in> set ns. n_id n = v
              \<and> (\<exists>t \<in> set (kept_tasks wp ts opts).
                     plan_task_key t = k \<and> n_text n = task_text t))"
    using place_plan_notes[of uid rot b board wp ts opts st] by blast
  have inside: "ran (fst ?placed) \<subseteq> n_id ` set ns"
  proof
    fix v
    assume "v \<in> ran (fst ?placed)"
    then obtain k where "fst ?placed k = Some v"
      by (auto simp: ran_def)
    then show "v \<in> n_id ` set ns"
      using ns(4) by blast
  qed
  have keep: "edges_ls (snd ?placed) = edges_ls st"
    by (simp add: place_plan_def Let_def)
  obtain es where es:
      "edges_ls (wire_edges uid b (fst ?placed) (plan_edges p) (snd ?placed)) b
         = edges_ls (snd ?placed) b @ es"
      "map (\<lambda>e. (se_from e, se_to e)) es
         = map (wired_ends (fst ?placed)) (filter (wires (fst ?placed)) (plan_edges p))"
      "\<forall>e \<in> set es. se_from e \<noteq> se_to e \<and> se_from e \<in> ran (fst ?placed)
            \<and> se_to e \<in> ran (fst ?placed) \<and> se_aiGenerated e = None
            \<and> se_kind e = KindObject \<lparr>x_aiGenerated = Some True, x_fromAI = None\<rparr>"
    using wire_edges_edges[of uid b "fst ?placed" "plan_edges p" "snd ?placed"] by blast
  have r: "snd (applyPlanToWall uid rot b xr aiOut opts st)
             = wire_edges uid b (fst ?placed) (plan_edges p) (snd ?placed)"
    using apply_wire_edges[OF assms] by simp
  have n: "notes_ls (snd (applyPlanToWall uid rot b xr aiOut opts st)) b = notes_ls st b @ ns"
    using ns(1) by (simp add: r)
  have e: "edges_ls (snd (applyPlanToWall uid rot b xr aiOut opts st)) b = edges_ls st b @ es"
    using es(1) keep by (simp add: r)
  have ends: "\<forall>e \<in> set es. se_from e \<noteq> se_to e \<and> se_from e \<in> n_id ` set ns
           \<and> se_to e \<in> n_id ` set ns \<and> se_aiGenerated e = None
           \<and> se_kind e = KindObject \<lparr>x_aiGenerated = Some True, x_fromAI = None\<rparr>"
    using es(3) inside by blast
  show ?thesis
    using n ns(2,3,4) e es(2) ends by blast
qed

lemma apply_new_edges:
  "\<exists>new. edges_ls (snd (applyPlanToWall uid rot b xr aiOut opts st)) b = edges_ls st b @ new
     \<and> (\<forall>e \<in> set new. se_from e \<noteq> se_to e \<and> se_aiGenerated e = None)"
proof (cases "\<exists>p wp ts scene board.
      plan_tasks aiOut = Some (p, wp, ts) \<and> xr = Some scene \<and> board_of scene = Some board")
  case True
  then obtain p wp ts scene board where
    "plan_tasks aiOut = Some (p, wp, ts)" "xr = Some scene" "board_of scene = Some board"
    by blast
  then show ?thesis
    using apply_success[of aiOut p wp ts xr scene board uid rot b opts st] by blast
next
  case False
  then have "snd (applyPlanToWall uid rot b xr aiOut opts st) = st"
    by (rule apply_not_started)
  then show ?thesis by simp
qed

lemma apply_new_notes:
  "\<exists>new. notes_ls (snd (applyPlanToWall uid rot b xr aiOut opts st)) b = notes_ls st b @ new
     \<and> (\<forall>n \<in> set new. applied_note n)
     \<and> (\<forall>p wp ts scene board.
           plan_tasks aiOut = Some (p, wp, ts) \<and> xr = Some scene \<and> board_of scene = Some board
           \<longrightarrow> map (\<lambda>n. (n_text n, position (n_pose n))) new
                 = map (\<lambda>(tx, l). (tx, vadd (rot l (b_quaternion board)) (b_position board)))
                     (planned_notes wp ts opts))"
proof (cases "\<exists>p wp ts scene board.
      plan_tasks aiOut = Some (p, wp, ts) \<and> xr = Some scene \<and> board_of scene = Some board")
  case True
  then obtain p wp ts scene board where c:
    "plan_tasks aiOut = Some (p, wp, ts)" "xr = Some scene" "board_of scene = Some board"
    by blast
  obtain ns where ns:
      "notes_ls (snd (applyPlanToWall uid rot b xr aiOut opts st)) b = notes_ls st b @ ns"
      "map (\<lambda>n. (n_text n, position (n_pose n))) ns
        = map (\<lambda>(tx, l). (tx, vadd (rot l (b_quaternion board)) (b_position board)))
            (planned_notes wp ts opts)"
      "\<forall>n \<in> set ns. applied_note n"
    using apply_success[OF c, of uid rot b opts st] by blast
  have "\<forall>p' wp' ts' scene' board'.
           plan_tasks aiOut = Some (p', wp', ts') \<and> xr = Some scene' \<and> board_of scene' = Some board'
           \<longrightarrow> wp' = wp \<and> ts' = ts \<and> board' = board"
    using c by auto
  then show ?thesis
    using ns by blast
next
  case False
  then have "snd (applyPlanToWall uid rot b xr aiOut opts st) = st"
    by (rule apply_not_started)
  then have kept: "notes_ls (snd (applyPlanToWall uid rot b xr aiOut opts st)) b = notes_ls st b @ []
      \<and> (\<forall>n \<in> set []. applied_note n)"
    by simp
  have none: "\<forall>p wp ts scene board.
           plan_tasks aiOut = Some (p, wp, ts) \<and> xr = Some scene \<and> board_of scene = Some board
           \<longrightarrow> map (\<lambda>n. (n_text n, position (n_pose n))) []
                 = map (\<lambda>(tx, l). (tx, vadd (rot l (b_quaternion board)) (b_position board)))
                     (planned_notes wp ts opts)"
    using False by blast
  show ?thesis
    using kept none by blast
qed

lemma map_pair_eqD:
  "map (\<lambda>n. (f n, g n)) xs = map (\<lambda>(a, l). (a, h l)) ys \<Longrightarrow>
     map f xs = map fst ys \<and> map g xs = map (\<lambda>(a, l). h l) ys"
  by (induction xs arbitrary: ys) auto

text \<open>
  C1 (the code departs from the claim): the plan with the tasks \<open>A\<close> and \<open>B\<close> and the edge
  from \<open>A\<close> to \<open>B\<close> is applied to an empty board.  The one edge created has no
  \<open>aiGenerated\<close> field: the object \<open>{ aiGenerated: true }\<close> went into \<open>kind\<close>.
\<close>

theorem C1_edge_tag_lost:
  "edges_ls (snd (applyPlanToWall sample_uuid no_rotation ''b'' (Some placed_xr) (Some plan_AB) None
       empty_store)) ''b''
     = [\<lparr>se_id = ''id-3'', se_from = ''id-1'', se_to = ''id-2'',
          se_kind = KindObject \<lparr>x_aiGenerated = Some True, x_fromAI = None\<rparr>,
          se_aiGenerated = None, se_fromAI = None\<rparr>]"
  by code_simp

text \<open>
  C2, as stated: without a board transform the applier fails with the condition
  \<open>board not placed\<close>.  With an empty task list and no board it fails with \<open>no tasks\<close>.
\<close>

theorem C2_board_error_counterexample:
  "fst (applyPlanToWall sample_uuid no_rotation ''b'' (Some unplaced_xr) (Some plan_empty) None
       empty_store)
     \<noteq> Inl (Error ''Board not placed yet.'')"
  by code_simp

text \<open>
  C2, amended: the applier fails with \<open>no tasks\<close> whenever the plan, its work plan or its
  task list is absent or the task list is empty; it fails with \<open>board not placed\<close>
  whenever there are tasks and the scene object has neither \<open>boardMesh\<close> nor \<open>boardAnchor\<close>
  (the task test comes first; with tasks and a scene object that is \<open>null\<close> the read of
  \<open>boardMesh\<close> throws a \<open>TypeError\<close>); whenever it fails, the store is unchanged, so no note
  and no edge was created.
\<close>

theorem C2_apply_preconditions:
  "(plan_tasks aiOut = None \<longrightarrow>
      applyPlanToWall uid rot b xr aiOut opts st = (Inl (Error ''No tasks to apply.''), st))
   \<and> (plan_tasks aiOut \<noteq> None \<and> xr = Some scene \<and> boardMesh scene = None
        \<and> boardAnchor scene = None \<longrightarrow>
      applyPlanToWall uid rot b xr aiOut opts st = (Inl (Error ''Board not placed yet.''), st))
   \<and> (plan_tasks aiOut \<noteq> None \<and> xr = None \<longrightarrow>
      applyPlanToWall uid rot b xr aiOut opts st = (Inl TypeError, st))
   \<and> (\<forall>e. fst (applyPlanToWall uid rot b xr aiOut opts st) = Inl e \<longrightarrow>
      snd (applyPlanToWall uid rot b xr aiOut opts st) = st)
   \<and> (plan_tasks aiOut = None) =
       (aiOut = None \<or> (\<exists>p. aiOut = Some p \<and> (p_workplan p = None
          \<or> (\<exists>wp. p_workplan p = Some wp \<and> (pw_tasks wp = None \<or> pw_tasks wp = Some [])))))"
proof (intro conjI impI allI)
  assume "plan_tasks aiOut = None"
  then show "applyPlanToWall uid rot b xr aiOut opts st = (Inl (Error ''No tasks to apply.''), st)"
    by (simp add: applyPlanToWall_def)
next
  assume "plan_tasks aiOut \<noteq> None \<and> xr = Some scene \<and> boardMesh scene = None
        \<and> boardAnchor scene = None"
  then show "applyPlanToWall uid rot b xr aiOut opts st
               = (Inl (Error ''Board not placed yet.''), st)"
    by (auto simp: applyPlanToWall_def board_of_def)
next
  assume "plan_tasks aiOut \<noteq> None \<and> xr = None"
  then show "applyPlanToWall uid rot b xr aiOut opts st = (Inl TypeError, st)"
    by (auto simp: applyPlanToWall_def)
next
  fix e
  assume "fst (applyPlanToWall uid rot b xr aiOut opts st) = Inl e"
  then show "snd (applyPlanToWall uid rot b xr aiOut opts st) = st"
    by (rule apply_failure_keeps_store)
next
  show "(plan_tasks aiOut = None) =
       (aiOut = None \<or> (\<exists>p. aiOut = Some p \<and> (p_workplan p = None
          \<or> (\<exists>wp. p_workplan p = Some wp \<and> (pw_tasks wp = None \<or> pw_tasks wp = Some [])))))"
    by (auto simp: plan_tasks_def split: option.splits if_splits)
qed

theorem C2_apply_preconditions_witness:
  "applyPlanToWall sample_uuid no_rotation ''b'' (Some placed_xr) (Some plan_empty) None empty_store
     = (Inl (Error ''No tasks to apply.''), empty_store)
   \<and> applyPlanToWall sample_uuid no_rotation ''b'' (Some unplaced_xr) (Some plan_AB) None empty_store
     = (Inl (Error ''Board not placed yet.''), empty_store)"
proof -
  have e: "plan_tasks (Some plan_empty) = None"
    by (simp add: plan_tasks_def plan_empty_def)
  have t: "plan_tasks (Some plan_AB) \<noteq> None"
    by (simp add: plan_tasks_def plan_AB_def)
  have x: "boardMesh unplaced_xr = None \<and> boardAnchor unplaced_xr = None"
    by (simp add: unplaced_xr_def)
  have "applyPlanToWall sample_uuid no_rotation ''b'' (Some placed_xr) (Some plan_empty) None
       empty_store = (Inl (Error ''No tasks to apply.''), empty_store)"
    using C2_apply_preconditions[of "Some plan_empty" sample_uuid no_rotation "''b''"
        "Some placed_xr" None empty_store] e
    by blast
  moreover have "applyPlanToWall sample_uuid no_rotation ''b'' (Some unplaced_xr) (Some plan_AB)
       None empty_store = (Inl (Error ''Board not placed yet.''), empty_store)"
    using C2_apply_preconditions[of "Some plan_AB" sample_uuid no_rotation "''b''"
        "Some unplaced_xr" None empty_store unplaced_xr] t x
    by blast
  ultimately show ?thesis by simp
qed

text \<open>
  C6: the applier never creates an edge whose two ends are the same note id.  Once there
  are tasks and a board it completes without an error, and then: the notes added to the
  board are, in order, the lane headers and task notes of the plan; the key table holds
  exactly the keys of the tasks that got a note, each with the id of a created note that
  shows a task of that key; the edges added are, in order, those of the workflow edges
  both of whose ends resolve through the key table to different ids, each with the two
  resolved ids as its ends, which are ids of created notes.  A workflow edge one of whose
  ends does not resolve is skipped: the result is the one of the same plan without that
  edge.
\<close>

theorem C6_self_loops_and_dangling_edges:
  "(\<exists>new. edges_ls (snd (applyPlanToWall uid rot b xr aiOut opts st)) b = edges_ls st b @ new
       \<and> (\<forall>e \<in> set new. se_from e \<noteq> se_to e))
   \<and> (plan_tasks aiOut = Some (p, wp, ts) \<and> xr = Some scene \<and> board_of scene = Some board \<longrightarrow>
        fst (applyPlanToWall uid rot b xr aiOut opts st) = Inr ()
        \<and> (\<exists>notes edges.
              notes_ls (snd (applyPlanToWall uid rot b xr aiOut opts st)) b = notes_ls st b @ notes
            \<and> map n_text notes = map fst (planned_notes wp ts opts)
            \<and> dom (fst (place_plan uid rot b board wp ts opts st))
                = plan_task_key ` set (kept_tasks wp ts opts)
            \<and> (\<forall>k v. fst (place_plan uid rot b board wp ts opts st) k = Some v \<longrightarrow>
                  (\<exists>n \<in> set notes. n_id n = v
                     \<and> (\<exists>t \<in> set (kept_tasks wp ts opts).
                            plan_task_key t = k \<and> n_text n = task_text t)))
            \<and> edges_ls (snd (applyPlanToWall uid rot b xr aiOut opts st)) b = edges_ls st b @ edges
            \<and> map (\<lambda>e. (se_from e, se_to e)) edges
                = map (wired_ends (fst (place_plan uid rot b board wp ts opts st)))
                    (filter (wires (fst (place_plan uid rot b board wp ts opts st))) (plan_edges p))
            \<and> (\<forall>e \<in> set edges. se_from e \<in> n_id ` set notes \<and> se_to e \<in> n_id ` set notes)))
   \<and> (plan_tasks aiOut = Some (p, wp, ts) \<and> xr = Some scene \<and> board_of scene = Some board
        \<and> p_workflow_edges p = Some (es1 @ e # es2)
        \<and> \<not> (truthy_str (resolve_key (fst (place_plan uid rot b board wp ts opts st)) (pe_from e))
              \<and> truthy_str (resolve_key (fst (place_plan uid rot b board wp ts opts st)) (pe_to e)))
      \<longrightarrow> applyPlanToWall uid rot b xr aiOut opts st
            = applyPlanToWall uid rot b xr (Some (p\<lparr>p_workflow_edges := Some (es1 @ es2)\<rparr>)) opts st)"
proof (intro conjI impI)
  show "\<exists>new. edges_ls (snd (applyPlanToWall uid rot b xr aiOut opts st)) b = edges_ls st b @ new
       \<and> (\<forall>e \<in> set new. se_from e \<noteq> se_to e)"
    using apply_new_edges[of uid rot b xr aiOut opts st] by blast
next
  assume "plan_tasks aiOut = Some (p, wp, ts) \<and> xr = Some scene \<and> board_of scene = Some board"
  then show "fst (applyPlanToWall uid rot b xr aiOut opts st) = Inr ()"
    by (simp add: applyPlanToWall_def Let_def)
next
  let ?m = "fst (place_plan uid rot b board wp ts opts st)"
  let ?b2w = "\<lambda>l. vadd (rot l (b_quaternion board)) (b_position board)"
  assume a: "plan_tasks aiOut = Some (p, wp, ts) \<and> xr = Some scene \<and> board_of scene = Some board"
  obtain ns es where r:
      "notes_ls (snd (applyPlanToWall uid rot b xr aiOut opts st)) b = notes_ls st b @ ns"
      "map (\<lambda>n. (n_text n, position (n_pose n))) ns
         = map (\<lambda>(tx, l). (tx, ?b2w l)) (planned_notes wp ts opts)"
      "\<forall>k v. ?m k = Some v \<longrightarrow>
           (\<exists>n \<in> set ns. n_id n = v
              \<and> (\<exists>t \<in> set (kept_tasks wp ts opts).
                     plan_task_key t = k \<and> n_text n = task_text t))"
      "edges_ls (snd (applyPlanToWall uid rot b xr aiOut opts st)) b = edges_ls st b @ es"
      "map (\<lambda>e. (se_from e, se_to e)) es = map (wired_ends ?m) (filter (wires ?m) (plan_edges p))"
      "\<forall>e \<in> set es. se_from e \<noteq> se_to e \<and> se_from e \<in> n_id ` set ns
           \<and> se_to e \<in> n_id ` set ns \<and> se_aiGenerated e = None
           \<and> se_kind e = KindObject \<lparr>x_aiGenerated = Some True, x_fromAI = None\<rparr>"
    using apply_success[of aiOut p wp ts xr scene board uid rot b opts st] a by blast
  have texts: "map n_text ns = map fst (planned_notes wp ts opts)"
    using map_pair_eqD[OF r(2)] by simp
  have keys: "dom ?m = plan_task_key ` set (kept_tasks wp ts opts)"
    by (rule place_plan_dom)
  have ends: "\<forall>e \<in> set es. se_from e \<in> n_id ` set ns \<and> se_to e \<in> n_id ` set ns"
    using r(6) by blast
  show "\<exists>notes edges.
              notes_ls (snd (applyPlanToWall uid rot b xr aiOut opts st)) b = notes_ls st b @ notes
            \<and> map n_text notes = map fst (planned_notes wp ts opts)
            \<and> dom ?m = plan_task_key ` set (kept_tasks wp ts opts)
            \<and> (\<forall>k v. ?m k = Some v \<longrightarrow>
                  (\<exists>n \<in> set notes. n_id n = v
                     \<and> (\<exists>t \<in> set (kept_tasks wp ts opts).
                            plan_task_key t = k \<and> n_text n = task_text t)))
            \<and> edges_ls (snd (applyPlanToWall uid rot b xr aiOut opts st)) b = edges_ls st b @ edges
            \<and> map (\<lambda>e. (se_from e, se_to e)) edges
                = map (wired_ends ?m) (filter (wires ?m) (plan_edges p))
            \<and> (\<forall>e \<in> set edges. se_from e \<in> n_id ` set notes \<and> se_to e \<in> n_id ` set notes)"
    using r(1) texts keys r(3) r(4) r(5) ends by blast
next
  let ?m = "fst (place_plan uid rot b board wp ts opts st)"
  assume a: "plan_tasks aiOut = Some (p, wp, ts) \<and> xr = Some scene \<and> board_of scene = Some board
        \<and> p_workflow_edges p = Some (es1 @ e # es2)
        \<and> \<not> (truthy_str (resolve_key ?m (pe_from e)) \<and> truthy_str (resolve_key ?m (pe_to e)))"
  then have ai: "aiOut = Some p"
    using plan_tasks_SomeD by blast
  have nw: "\<not> wires ?m e"
    using a by (auto simp: wires_def)
  have pt: "plan_tasks (Some (p\<lparr>p_workflow_edges := Some (es1 @ es2)\<rparr>))
              = Some (p\<lparr>p_workflow_edges := Some (es1 @ es2)\<rparr>, wp, ts)"
    using a ai plan_tasks_edges_update by blast
  show "applyPlanToWall uid rot b xr aiOut opts st
          = applyPlanToWall uid rot b xr (Some (p\<lparr>p_workflow_edges := Some (es1 @ es2)\<rparr>)) opts st"
    using a pt wire_edges_skip[OF nw]
    unfolding applyPlanToWall_def by (simp add: Let_def)
qed

theorem C6_self_loops_and_dangling_edges_witness:
  "fst (applyPlanToWall sample_uuid no_rotation ''b'' (Some placed_xr) (Some plan_dangling) None
          empty_store) = Inr ()
   \<and> map (\<lambda>n. (n_id n, n_text n))
       (notes_ls (snd (applyPlanToWall sample_uuid no_rotation ''b'' (Some placed_xr)
          (Some plan_dangling) None empty_store)) ''b'')
       = [(''id-0'', HEADER_GLYPH @ '' Tasks''), (''id-1'', ''[P1] A''), (''id-2'', ''[P1] B'')]
   \<and> map (\<lambda>e. (se_from e, se_to e))
       (edges_ls (snd (applyPlanToWall sample_uuid no_rotation ''b'' (Some placed_xr)
          (Some plan_dangling) None empty_store)) ''b'')
       = [(''id-1'', ''id-2''), (''id-2'', ''id-1'')]
   \<and> applyPlanToWall sample_uuid no_rotation ''b'' (Some placed_xr) (Some plan_dangling) None
         empty_store
       = applyPlanToWall sample_uuid no_rotation ''b'' (Some placed_xr) (Some plan_dangling_removed)
           None empty_store"
proof -
  let ?wp = "\<lparr>pw_tasks = Some [plain_task ''A'', plain_task ''B''], pw_lanes = None\<rparr>"
  let ?ts = "[plain_task ''A'', plain_task ''B'']"
  let ?e = "\<lparr>pe_from = ''A'', pe_to = ''C'', pe_kind = None\<rparr>"
  let ?es2 = "[\<lparr>pe_from = ''A'', pe_to = ''A'', pe_kind = None\<rparr>,
               \<lparr>pe_from = ''A'', pe_to = ''B'', pe_kind = None\<rparr>,
               \<lparr>pe_from = ''B'', pe_to = '' A '', pe_kind = None\<rparr>]"
  have pt: "plan_tasks (Some plan_dangling) = Some (plan_dangling, ?wp, ?ts)"
    by (simp add: plan_tasks_def plan_dangling_def)
  have bd: "board_of placed_xr = Some origin_board"
    by (simp add: board_of_def placed_xr_def)
  have es: "p_workflow_edges plan_dangling = Some ([] @ ?e # ?es2)"
    by (simp add: plan_dangling_def)
  have dangling: "\<not> truthy_str (resolve_key
      (fst (place_plan sample_uuid no_rotation ''b'' origin_board ?wp ?ts None empty_store))
      (pe_to ?e))"
    by code_simp
  have upd: "plan_dangling\<lparr>p_workflow_edges := Some ([] @ ?es2)\<rparr> = plan_dangling_removed"
    by (simp add: plan_dangling_def plan_dangling_removed_def)
  have shown: "map (\<lambda>n. (n_id n, n_text n))
       (notes_ls (snd (applyPlanToWall sample_uuid no_rotation ''b'' (Some placed_xr)
          (Some plan_dangling) None empty_store)) ''b'')
       = [(''id-0'', HEADER_GLYPH @ '' Tasks''), (''id-1'', ''[P1] A''), (''id-2'', ''[P1] B'')]"
    by code_simp
  have wired: "map (\<lambda>e. (se_from e, se_to e))
       (edges_ls (snd (applyPlanToWall sample_uuid no_rotation ''b'' (Some placed_xr)
          (Some plan_dangling) None empty_store)) ''b'')
       = [(''id-1'', ''id-2''), (''id-2'', ''id-1'')]"
    by code_simp
  have "fst (applyPlanToWall sample_uuid no_rotation ''b'' (Some placed_xr) (Some plan_dangling)
          None empty_store) = Inr ()"
    using C6_self_loops_and_dangling_edges[of sample_uuid no_rotation "''b''"
        "Some placed_xr" "Some plan_dangling" None empty_store plan_dangling ?wp ?ts placed_xr
        origin_board "[]" ?e ?es2] pt bd
    by blast
  moreover have "applyPlanToWall sample_uuid no_rotation ''b'' (Some placed_xr)
         (Some plan_dangling) None empty_store
       = applyPlanToWall sample_uuid no_rotation ''b'' (Some placed_xr)
           (Some (plan_dangling\<lparr>p_workflow_edges := Some ([] @ ?es2)\<rparr>)) None empty_store"
    using C6_self_loops_and_dangling_edges[of sample_uuid no_rotation "''b''"
        "Some placed_xr" "Some plan_dangling" None empty_store plan_dangling ?wp ?ts placed_xr
        origin_board "[]" ?e ?es2]
      pt bd es dangling
    by blast
  ultimately show ?thesis
    using shown wired upd by simp
qed

text \<open>
  C10: every note that the applier adds to the board, lane header or task note, has
  \<open>votes = 0\<close> and the identity quaternion \<open>[0,0,0,1]\<close>, whatever the board's orientation and
  the rotation applied; and once there are tasks and a board, the positions of the notes
  added are, in order, the board-local points of the layout, each rotated by the board's
  own quaternion and then moved by the board's position.
\<close>

theorem C10_applied_notes_unrotated:
  "\<exists>new. notes_ls (snd (applyPlanToWall uid rot b xr aiOut opts st)) b = notes_ls st b @ new
     \<and> (\<forall>n \<in> set new. n_votes n = 0 \<and> quaternion (n_pose n) = (0, 0, 0, 1))
     \<and> (\<forall>p wp ts scene board.
           plan_tasks aiOut = Some (p, wp, ts) \<and> xr = Some scene \<and> board_of scene = Some board
           \<longrightarrow> map (\<lambda>n. position (n_pose n)) new
                 = map (\<lambda>(tx, l). vadd (rot l (b_quaternion board)) (b_position board))
                     (planned_notes wp ts opts))"
proof -
  obtain new where new:
      "notes_ls (snd (applyPlanToWall uid rot b xr aiOut opts st)) b = notes_ls st b @ new"
      "\<forall>n \<in> set new. applied_note n"
      "\<forall>p wp ts scene board.
           plan_tasks aiOut = Some (p, wp, ts) \<and> xr = Some scene \<and> board_of scene = Some board
           \<longrightarrow> map (\<lambda>n. (n_text n, position (n_pose n))) new
                 = map (\<lambda>(tx, l). (tx, vadd (rot l (b_quaternion board)) (b_position board)))
                     (planned_notes wp ts opts)"
    using apply_new_notes[of uid rot b xr aiOut opts st] by blast
  have plain: "\<forall>n \<in> set new. n_votes n = 0 \<and> quaternion (n_pose n) = (0, 0, 0, 1)"
    using new(2) by (simp add: applied_note_def)
  have placed: "\<forall>p wp ts scene board.
           plan_tasks aiOut = Some (p, wp, ts) \<and> xr = Some scene \<and> board_of scene = Some board
           \<longrightarrow> map (\<lambda>n. position (n_pose n)) new
                 = map (\<lambda>(tx, l). vadd (rot l (b_quaternion board)) (b_position board))
                     (planned_notes wp ts opts)"
  proof (intro allI impI)
    fix p wp ts scene board
    assume "plan_tasks aiOut = Some (p, wp, ts) \<and> xr = Some scene \<and> board_of scene = Some board"
    then have "map (\<lambda>n. (n_text n, position (n_pose n))) new
                 = map (\<lambda>(tx, l). (tx, vadd (rot l (b_quaternion board)) (b_position board)))
                     (planned_notes wp ts opts)"
      using new(3) by blast
    then show "map (\<lambda>n. position (n_pose n)) new
                 = map (\<lambda>(tx, l). vadd (rot l (b_quaternion board)) (b_position board))
                     (planned_notes wp ts opts)"
      by (rule conjunct2[OF map_pair_eqD])
  qed
  show ?thesis
    using new(1) plain placed by blast
qed

theorem C10_applied_notes_unrotated_witness:
  "map (\<lambda>n. (n_votes n, quaternion (n_pose n)))
     (notes_ls (snd (applyPlanToWall sample_uuid quat_rotate ''b'' (Some turned_xr) (Some plan_AB)
        None empty_store)) ''b'')
     = [(0, (0, 0, 0, 1)), (0, (0, 0, 0, 1)), (0, (0, 0, 0, 1))]
   \<and> map (\<lambda>n. position (n_pose n))
       (notes_ls (snd (applyPlanToWall sample_uuid quat_rotate ''b'' (Some turned_xr) (Some plan_AB)
          None empty_store)) ''b'')
     = [(1.6, 1.65, 3), (1.6, 1.85, 3), (1.6, 2.05, 3)]
   \<and> map snd (planned_notes
        \<lparr>pw_tasks = Some [plain_task ''A'', plain_task ''B''], pw_lanes = None\<rparr>
        [plain_task ''A'', plain_task ''B''] None)
     = [(- 0.6, 0.35, 0), (- 0.6, 0.15, 0), (- 0.6, - 0.05, 0)]
   \<and> b_quaternion turned_board = (0, 0, 1, 0)
   \<and> list_all (\<lambda>n. n_votes n = 0 \<and> quaternion (n_pose n) = (0, 0, 0, 1))
       (notes_ls (snd (applyPlanToWall sample_uuid quat_rotate ''b'' (Some turned_xr) (Some plan_AB)
          None empty_store)) ''b'')"
proof -
  let ?wp = "\<lparr>pw_tasks = Some [plain_task ''A'', plain_task ''B''], pw_lanes = None\<rparr>"
  let ?ts = "[plain_task ''A'', plain_task ''B'']"
  let ?notes = "notes_ls (snd (applyPlanToWall sample_uuid quat_rotate ''b'' (Some turned_xr)
        (Some plan_AB) None empty_store)) ''b''"
  have pt: "plan_tasks (Some plan_AB) = Some (plan_AB, ?wp, ?ts)"
    by (simp add: plan_tasks_def plan_AB_def)
  have bd: "board_of turned_xr = Some turned_board"
    by (simp add: board_of_def turned_xr_def)
  have old: "notes_ls empty_store ''b'' = []"
    by (simp add: empty_store_def)
  have locals: "map snd (planned_notes ?wp ?ts None)
      = [(- 0.6, 0.35, 0), (- 0.6, 0.15, 0), (- 0.6, - 0.05, 0)]"
    by code_simp
  have world: "map (\<lambda>(tx, l). vadd (quat_rotate l (b_quaternion turned_board))
                  (b_position turned_board)) (planned_notes ?wp ?ts None)
      = [(1.6, 1.65, 3), (1.6, 1.85, 3), (1.6, 2.05, 3)]"
    by code_simp
  have concrete: "map (\<lambda>n. (n_votes n, quaternion (n_pose n))) ?notes
      = [(0, (0, 0, 0, 1)), (0, (0, 0, 0, 1)), (0, (0, 0, 0, 1))]"
    by code_simp
  have turned: "b_quaternion turned_board = (0, 0, 1, 0)"
    by (simp add: turned_board_def)
  obtain new where new: "?notes = notes_ls empty_store ''b'' @ new"
      "\<forall>n \<in> set new. n_votes n = 0 \<and> quaternion (n_pose n) = (0, 0, 0, 1)"
      "\<forall>p wp ts scene board.
           plan_tasks (Some plan_AB) = Some (p, wp, ts) \<and> Some turned_xr = Some scene
             \<and> board_of scene = Some board
           \<longrightarrow> map (\<lambda>n. position (n_pose n)) new
                 = map (\<lambda>(tx, l). vadd (quat_rotate l (b_quaternion board)) (b_position board))
                     (planned_notes wp ts None)"
    using C10_applied_notes_unrotated[of sample_uuid quat_rotate "''b''" "Some turned_xr"
        "Some plan_AB" None empty_store]
    by blast
  have same: "?notes = new"
    using new(1) old by simp
  have positions: "map (\<lambda>n. position (n_pose n)) ?notes
      = [(1.6, 1.65, 3), (1.6, 1.85, 3), (1.6, 2.05, 3)]"
    using new(3) pt bd world unfolding same by metis
  have unrotated: "list_all (\<lambda>n. n_votes n = 0 \<and> quaternion (n_pose n) = (0, 0, 0, 1)) ?notes"
    using new(2) unfolding same by (simp add: list_all_iff)
  show ?thesis
    using concrete positions locals turned unrotated by simp
qed

end
